theory Spec2Isabelle
  imports Main "HOL-Library.Word" "HOL-Library.List_Lexorder"
begin

section \<open>JavaScript strings\<close>

text \<open>
  A JavaScript string is a sequence of 16-bit code units. String comparison (\<open>===\<close>,
  \<open>Array.prototype.includes\<close>, membership in a \<open>Set\<close>) is equality of these sequences,
  and the default order of \<open>Array.prototype.sort\<close> is the lexicographic order of the
  code units, which is the order of \<open>HOL-Library.List_Lexorder\<close> over the unsigned order
  of words. \<open>js\<close> writes an ASCII literal of the source.
\<close>

type_synonym jschar = "16 word"
type_synonym jsstring = "jschar list"

definition js :: "string \<Rightarrow> jsstring" where
  "js s = map of_char s"

text \<open>
  \<open>String.prototype.trim\<close> removes the code units of WhiteSpace and LineTerminator from
  both ends.
\<close>

definition isWhiteSpace :: "jschar \<Rightarrow> bool" where
  "isWhiteSpace c \<longleftrightarrow> c \<in> set [0x0009, 0x000A, 0x000B, 0x000C, 0x000D, 0x0020, 0x00A0,
     0x1680, 0x2000, 0x2001, 0x2002, 0x2003, 0x2004, 0x2005, 0x2006, 0x2007, 0x2008,
     0x2009, 0x200A, 0x2028, 0x2029, 0x202F, 0x205F, 0x3000, 0xFEFF]"

definition trim :: "jsstring \<Rightarrow> jsstring" where
  "trim s = rev (dropWhile isWhiteSpace (rev (dropWhile isWhiteSpace s)))"

section \<open>The two-axis controller (type and technology)\<close>

subsection \<open>The page as the script sees it\<close>

text \<open>
  A card is an element of class \<open>project-card\<close>. The script reads its
  \<open>data-project-type\<close> attribute (\<open>dataset.projectType\<close>, \<open>undefined\<close> when the
  attribute is absent, here \<open>None\<close>) and the text of its descendants of class
  \<open>project-tag-badge\<close> in document order; it writes the class \<open>hidden\<close> and the
  style property \<open>animation\<close>.
\<close>

record card =
  projectType :: "jsstring option"
  tagBadges :: "jsstring list"
  hidden :: bool
  animation :: jsstring

datatype axis = Type | Tech

text \<open>
  A control made by \<open>createFilterButton\<close>: the class \<open>active\<close>, \<open>dataset.value\<close>
  (the same string the click listener has captured as \<open>value\<close>), the label, and the
  \<open>filterType\<close> captured by the listener (\<open>capturedFilterType\<close>).
\<close>

record button =
  active :: bool
  dataValue :: jsstring
  textContent :: jsstring
  capturedFilterType :: axis

record element =
  display :: jsstring

record filter =
  type :: jsstring
  tech :: jsstring

text \<open>
  The variables of the \<open>DOMContentLoaded\<close> listener. \<open>getElementById\<close> returns
  \<open>null\<close> (\<open>None\<close>) for an id the markup lacks. A filter container is given by its
  descendants of class \<open>filter-btn\<close>, in document order.
\<close>

record page =
  projectsGrid :: "element option"
  projectCards :: "card list"
  typeFiltersContainer :: "button list option"
  techFiltersContainer :: "button list option"
  emptyState :: "element option"
  currentFilter :: filter

text \<open>Reading a property of \<open>null\<close> throws; what was mutated before stays mutated.\<close>

datatype error = TypeError

subsection \<open>applyFilters\<close>

text \<open>The body of the \<open>forEach\<close> over the cards, with the counter it increments.\<close>

fun applyFilters_cards :: "filter \<Rightarrow> card list \<Rightarrow> nat \<Rightarrow> card list \<times> nat" where
  "applyFilters_cards flt [] visibleCount = ([], visibleCount)"
| "applyFilters_cards flt (c # rest) visibleCount =
     (let cardType = projectType c;
          typeMatch = (type flt = js ''all'' \<or> cardType = Some (type flt));
          cardTechs = map trim (tagBadges c);
          techMatch = (tech flt = js ''all'' \<or> tech flt \<in> set cardTechs)
      in if typeMatch \<and> techMatch
         then (let (rest', n) = applyFilters_cards flt rest (visibleCount + 1)
               in (c\<lparr>hidden := False,
                        animation := js ''fadeInUp 0.5s ease-out forwards''\<rparr> # rest', n))
         else (let (rest', n) = applyFilters_cards flt rest visibleCount
               in (c\<lparr>hidden := True\<rparr> # rest', n)))"

definition applyFilters :: "page \<Rightarrow> page \<times> error option" where
  "applyFilters p =
     (let (cards, visibleCount) = applyFilters_cards (currentFilter p) (projectCards p) 0;
          p1 = p\<lparr>projectCards := cards\<rparr>
      in if visibleCount = 0 then
           (case emptyState p1 of
              None \<Rightarrow> (p1, Some TypeError)
            | Some e \<Rightarrow>
                (let p2 = p1\<lparr>emptyState := Some (e\<lparr>display := js ''block''\<rparr>)\<rparr>
                 in case projectsGrid p2 of
                      None \<Rightarrow> (p2, Some TypeError)
                    | Some g \<Rightarrow> (p2\<lparr>projectsGrid := Some (g\<lparr>display := js ''none''\<rparr>)\<rparr>, None)))
         else
           (case emptyState p1 of
              None \<Rightarrow> (p1, Some TypeError)
            | Some e \<Rightarrow>
                (let p2 = p1\<lparr>emptyState := Some (e\<lparr>display := js ''none''\<rparr>)\<rparr>
                 in case projectsGrid p2 of
                      None \<Rightarrow> (p2, Some TypeError)
                    | Some g \<Rightarrow> (p2\<lparr>projectsGrid := Some (g\<lparr>display := js ''grid''\<rparr>)\<rparr>, None))))"

subsection \<open>createFilterButton and its click listener\<close>

definition createFilterButton :: "jsstring \<Rightarrow> jsstring \<Rightarrow> bool \<Rightarrow> axis \<Rightarrow> button" where
  "createFilterButton value label isActive filterType =
     \<lparr>active = isActive, dataValue = value, textContent = label, capturedFilterType = filterType\<rparr>"

definition container :: "axis \<Rightarrow> page \<Rightarrow> button list option" where
  "container filterType p =
     (if filterType = Type then typeFiltersContainer p else techFiltersContainer p)"

definition set_container :: "axis \<Rightarrow> button list \<Rightarrow> page \<Rightarrow> page" where
  "set_container filterType bs p =
     (if filterType = Type then p\<lparr>typeFiltersContainer := Some bs\<rparr>
      else p\<lparr>techFiltersContainer := Some bs\<rparr>)"

definition set_currentFilter :: "axis \<Rightarrow> jsstring \<Rightarrow> filter \<Rightarrow> filter" where
  "set_currentFilter filterType value f =
     (if filterType = Type then f\<lparr>type := value\<rparr> else f\<lparr>tech := value\<rparr>)"

text \<open>
  The last two statements of the listener: the captured value becomes the selected value
  of the captured axis, and the cards are re-evaluated.
\<close>

definition select :: "axis \<Rightarrow> jsstring \<Rightarrow> page \<Rightarrow> page \<times> error option" where
  "select filterType value p =
     applyFilters (p\<lparr>currentFilter := set_currentFilter filterType value (currentFilter p)\<rparr>)"

text \<open>
  A click on the control at position \<open>i\<close> of the container of axis \<open>a\<close>. The listener
  of that control looks up the container of its captured \<open>filterType\<close>, removes
  \<open>active\<close> from every \<open>filter-btn\<close> in it, adds \<open>active\<close> to the clicked control
  itself, stores the captured value and runs \<open>applyFilters\<close>. Where there is no such
  control there is no event, and the page is as before.
\<close>

definition click :: "axis \<Rightarrow> nat \<Rightarrow> page \<Rightarrow> page \<times> error option" where
  "click a i p =
     (case container a p of
        None \<Rightarrow> (p, None)
      | Some own \<Rightarrow>
          if i < length own then
            (let btn = own ! i
             in case container (capturedFilterType btn) p of
                  None \<Rightarrow> (p, Some TypeError)
                | Some siblings \<Rightarrow>
                    (let p1 = set_container (capturedFilterType btn)
                                (map (\<lambda>s. s\<lparr>active := False\<rparr>) siblings) p;
                         p2 = (case container a p1 of
                                 None \<Rightarrow> p1
                               | Some own1 \<Rightarrow>
                                   set_container a (own1[i := (own1 ! i)\<lparr>active := True\<rparr>]) p1)
                     in select (capturedFilterType btn) (dataValue btn) p2))
          else (p, None))"

text \<open>A sequence of clicks, each given by the axis and the position of the control.\<close>

definition clicks :: "(axis \<times> nat) list \<Rightarrow> page \<Rightarrow> page" where
  "clicks evs p = fold (\<lambda>(a, i) q. fst (click a i q)) evs p"

subsection \<open>initTypeFilters\<close>

text \<open>
  A \<open>Set\<close> keeps its members in insertion order, without duplicates; \<open>Array.from\<close>
  reads them in that order.
\<close>

definition set_add :: "'a list \<Rightarrow> 'a \<Rightarrow> 'a list" where
  "set_add s x = (if x \<in> set s then s else s @ [x])"

text \<open>
  \<open>if (type)\<close> holds for a string that is not empty, and neither for \<open>undefined\<close> nor for
  the empty string. The label of the sentinel control is the two code units U+5168 U+90E8.
  \<open>appendChild\<close> on a missing container throws.
\<close>

definition collectTypes :: "card list \<Rightarrow> jsstring list" where
  "collectTypes cards =
     fold (\<lambda>c typeSet. case projectType c of
                          None \<Rightarrow> typeSet
                        | Some ty \<Rightarrow> if ty \<noteq> [] then set_add typeSet ty else typeSet)
          cards []"

definition initTypeFilters :: "page \<Rightarrow> page \<times> error option" where
  "initTypeFilters p =
     (let typeSet = collectTypes (projectCards p);
          allBtn = createFilterButton (js ''all'') [0x5168, 0x90E8] True Type
      in case typeFiltersContainer p of
           None \<Rightarrow> (p, Some TypeError)
         | Some children \<Rightarrow>
             (p\<lparr>typeFiltersContainer :=
                  Some (children @ allBtn #
                        map (\<lambda>type. createFilterButton type type False Type) (sort typeSet))\<rparr>,
              None))"

subsection \<open>initTechFilters\<close>

text \<open>
  \<open>techCount\<close> is a plain object \<open>{}\<close>: a property read that finds no own property
  goes on to \<open>Object.prototype\<close>. The values its properties take are numbers and, where
  a tag has the name of a member of \<open>Object.prototype\<close>, values that are no numbers
  (the inherited function or object, and after \<open>+ 1\<close> its text followed by \<open>1\<close>).
  An assignment to \<open>__proto__\<close> with a string is ignored by the inherited setter.
\<close>

datatype jsvalue = Number nat | NotNumeric

type_synonym object = "jsstring \<rightharpoonup> jsvalue"

definition Object_prototype :: "jsstring list" where
  "Object_prototype =
     [js ''constructor'', js ''__defineGetter__'', js ''__defineSetter__'',
      js ''hasOwnProperty'', js ''__lookupGetter__'', js ''__lookupSetter__'',
      js ''isPrototypeOf'', js ''propertyIsEnumerable'', js ''toString'', js ''valueOf'',
      js ''__proto__'', js ''toLocaleString'']"

definition get_property :: "object \<Rightarrow> jsstring \<Rightarrow> jsvalue option" where
  "get_property obj k =
     (case obj k of
        Some v \<Rightarrow> Some v
      | None \<Rightarrow> if k \<in> set Object_prototype then Some NotNumeric else None)"

definition set_property :: "object \<Rightarrow> jsstring \<Rightarrow> jsvalue \<Rightarrow> object" where
  "set_property obj k v = (if k = js ''__proto__'' then obj else obj(k \<mapsto> v))"

text \<open>\<open>(x || 0) + 1\<close>: \<open>undefined\<close> and \<open>0\<close> are falsy; a string or object plus \<open>1\<close> is a string.\<close>

definition or_zero_plus_one :: "jsvalue option \<Rightarrow> jsvalue" where
  "or_zero_plus_one x =
     (case x of None \<Rightarrow> Number 1 | Some (Number n) \<Rightarrow> Number (n + 1) | Some NotNumeric \<Rightarrow> NotNumeric)"

text \<open>\<open>x - y\<close>: \<open>NaN\<close> (\<open>None\<close>) unless both operands are numbers.\<close>

definition minus_js :: "jsvalue option \<Rightarrow> jsvalue option \<Rightarrow> int option" where
  "minus_js x y =
     (case (x, y) of (Some (Number m), Some (Number n)) \<Rightarrow> Some (int m - int n) | _ \<Rightarrow> None)"

text \<open>
  \<open>Array.prototype.sort\<close> with a comparator. The sort sees the comparator through
  \<open>SortCompare\<close>, where a result \<open>NaN\<close> counts as \<open>0\<close>.
\<close>

definition SortCompare :: "('a \<Rightarrow> 'a \<Rightarrow> int option) \<Rightarrow> 'a \<Rightarrow> 'a \<Rightarrow> int" where
  "SortCompare comparefn x y = (case comparefn x y of None \<Rightarrow> 0 | Some v \<Rightarrow> v)"

text \<open>
  The comparisons are consistent on the elements of an array when they are reflexive,
  the equivalence is symmetric and transitive, and less and greater are transitive
  (the conditions of ECMAScript on a comparator), here checked for every element
  \<open>a\<close>, every pair \<open>a\<close>, \<open>b\<close> and every triple \<open>a\<close>, \<open>b\<close>, \<open>c\<close> of the array. Then the
  elements fall into equivalence classes that are totally ordered, and the sort, being
  stable, has one result whatever the engine: the one of the stable insertion sort
  below. Where the comparisons are not consistent the order is implementation-defined;
  the engine is a parameter, given the comparisons and the array.
\<close>

fun consistent_triples :: "('a \<Rightarrow> 'a \<Rightarrow> int) \<Rightarrow> 'a \<Rightarrow> 'a \<Rightarrow> 'a list \<Rightarrow> bool" where
  "consistent_triples cf a b [] = True"
| "consistent_triples cf a b (c # cs) =
     ((if cf a b = 0 \<and> cf b c = 0 then cf a c = 0 else True) \<and>
      (if cf a b < 0 \<and> cf b c < 0 then cf a c < 0 else True) \<and>
      (if cf a b > 0 \<and> cf b c > 0 then cf a c > 0 else True) \<and>
      consistent_triples cf a b cs)"

fun consistent_pairs :: "('a \<Rightarrow> 'a \<Rightarrow> int) \<Rightarrow> 'a \<Rightarrow> 'a list \<Rightarrow> 'a list \<Rightarrow> bool" where
  "consistent_pairs cf a [] xs = True"
| "consistent_pairs cf a (b # bs) xs =
     ((if cf a b = 0 then cf b a = 0 else True) \<and>
      consistent_triples cf a b xs \<and>
      consistent_pairs cf a bs xs)"

fun consistent_elements :: "('a \<Rightarrow> 'a \<Rightarrow> int) \<Rightarrow> 'a list \<Rightarrow> 'a list \<Rightarrow> bool" where
  "consistent_elements cf [] xs = True"
| "consistent_elements cf (a # as) xs =
     (cf a a = 0 \<and> consistent_pairs cf a xs xs \<and> consistent_elements cf as xs)"

definition consistent :: "('a \<Rightarrow> 'a \<Rightarrow> int) \<Rightarrow> 'a list \<Rightarrow> bool" where
  "consistent cf xs = consistent_elements cf xs xs"

type_synonym 'a sort_engine = "('a \<Rightarrow> 'a \<Rightarrow> int) \<Rightarrow> 'a list \<Rightarrow> 'a list"

fun insort_by :: "('a \<Rightarrow> 'a \<Rightarrow> int option) \<Rightarrow> 'a \<Rightarrow> 'a list \<Rightarrow> 'a list" where
  "insort_by comparefn x [] = [x]"
| "insort_by comparefn x (y # ys) =
     (if SortCompare comparefn x y \<le> 0 then x # y # ys else y # insort_by comparefn x ys)"

definition sort_by :: "'a sort_engine \<Rightarrow> ('a \<Rightarrow> 'a \<Rightarrow> int option) \<Rightarrow> 'a list \<Rightarrow> 'a list" where
  "sort_by engine comparefn xs =
     (if consistent (SortCompare comparefn) xs then foldr (insort_by comparefn) xs []
      else engine (SortCompare comparefn) xs)"

text \<open>The two nested \<open>forEach\<close> loops over the cards and their tag badges.\<close>

definition scanTag :: "jsstring \<Rightarrow> jsstring list \<times> object \<Rightarrow> jsstring list \<times> object" where
  "scanTag tag = (\<lambda>(technologySet, techCount).
     (let tech = trim tag
      in (set_add technologySet tech,
          set_property techCount tech (or_zero_plus_one (get_property techCount tech)))))"

definition scanCards :: "card list \<Rightarrow> jsstring list \<times> object" where
  "scanCards cards = fold (\<lambda>c. fold scanTag (tagBadges c)) cards ([], Map.empty)"

definition initTechFilters :: "jsstring sort_engine \<Rightarrow> page \<Rightarrow> page \<times> error option" where
  "initTechFilters engine p =
     (let (technologySet, techCount) = scanCards (projectCards p);
          sortedTechs = sort_by engine
                          (\<lambda>a b. minus_js (get_property techCount b) (get_property techCount a))
                          technologySet;
          allBtn = createFilterButton (js ''all'') [0x5168, 0x90E8] True Tech
      in case techFiltersContainer p of
           None \<Rightarrow> (p, Some TypeError)
         | Some children \<Rightarrow>
             (p\<lparr>techFiltersContainer :=
                  Some (children @ allBtn #
                        map (\<lambda>tech. createFilterButton tech tech False Tech) sortedTechs)\<rparr>,
              None))"

subsection \<open>The listener of DOMContentLoaded\<close>

text \<open>
  The arguments are the sort of the engine and the page as the markup gives it; an
  exception of \<open>initTypeFilters\<close> ends the listener before \<open>initTechFilters\<close>.
\<close>

definition DOMContentLoaded :: "jsstring sort_engine \<Rightarrow> page \<Rightarrow> page \<times> error option" where
  "DOMContentLoaded engine markup =
     (let p = markup\<lparr>currentFilter := \<lparr>type = js ''all'', tech = js ''all''\<rparr>\<rparr>
      in case initTypeFilters p of
           (p1, Some e) \<Rightarrow> (p1, Some e)
         | (p1, None) \<Rightarrow> initTechFilters engine p1)"

text \<open>The page after loading and a sequence of clicks.\<close>

definition session :: "jsstring sort_engine \<Rightarrow> page \<Rightarrow> (axis \<times> nat) list \<Rightarrow> page" where
  "session engine markup evs = clicks evs (fst (DOMContentLoaded engine markup))"

section \<open>The single-axis controller (class ProjectsManager)\<close>

subsection \<open>The page as the script sees it\<close>

text \<open>
  A card here is read through the text of its descendants of class \<open>tech-tag\<close>; the
  script writes its classes \<open>hidden\<close> and \<open>fade-out\<close> and its style property
  \<open>animation\<close>.
\<close>

record tcard =
  techTags :: "jsstring list"
  hiddenClass :: bool
  fadeOutClass :: bool
  animationStyle :: jsstring

text \<open>
  What the script looks at in the document as the markup gives it, in document order: a
  card with the tags inside it, or an element of class \<open>tech-tag\<close> outside every card.
  Cards are taken not to lie inside one another. \<open>document.querySelectorAll('.tech-tag')\<close>
  yields all tags, inside cards and outside; \<open>card.querySelectorAll('.tech-tag')\<close> the
  tags of that card.
\<close>

datatype node = Card tcard | TechTag jsstring

fun cards_of :: "node list \<Rightarrow> tcard list" where
  "cards_of [] = []"
| "cards_of (Card c # ns) = c # cards_of ns"
| "cards_of (TechTag t # ns) = cards_of ns"

fun tags_of :: "node list \<Rightarrow> jsstring list" where
  "tags_of [] = []"
| "tags_of (Card c # ns) = techTags c @ tags_of ns"
| "tags_of (TechTag t # ns) = t # tags_of ns"

record fbutton =
  activeClass :: bool
  dataFilter :: jsstring

text \<open>
  A pending \<open>setTimeout\<close> callback of the click listener, with the position of the card it
  has captured: after 50 ms the entrance animation is set, after 300 ms the class
  \<open>hidden\<close> is added.
\<close>

datatype timeout = SetAnimation nat | AddHidden nat

text \<open>
  \<open>header\<close>: an element of class \<open>projects-header\<close> exists. \<open>techTagElements\<close>: the
  texts of all elements of class \<open>tech-tag\<close> of the document, in document order.
  \<open>techCards\<close>: the elements of class \<open>project-card\<close>. \<open>filterButtons\<close>: the node
  list of that name, every member of which has the click listener; empty while no
  listener is installed. \<open>filterStyles\<close>: the style sheet of the panel is in the head.
\<close>

record projects_page =
  header :: bool
  techTagElements :: "jsstring list"
  techCards :: "tcard list"
  filterButtons :: "fbutton list"
  filterStyles :: bool
  timeouts :: "timeout list"

text \<open>The page before the script runs: no filter button, no style sheet, no timer.\<close>

definition initial_page :: "bool \<Rightarrow> node list \<Rightarrow> projects_page" where
  "initial_page hdr nodes =
     \<lparr>header = hdr, techTagElements = tags_of nodes, techCards = cards_of nodes,
      filterButtons = [], filterStyles = False, timeouts = []\<rparr>"

subsection \<open>setupFiltering\<close>

definition spaces :: "nat \<Rightarrow> jsstring" where
  "spaces n = replicate n 0x20"

text \<open>The template literal \<open>filterHTML\<close>, with the tags spliced in unescaped.\<close>

definition filterHTML :: "jsstring list \<Rightarrow> jsstring" where
  \<open>filterHTML techTagList =
     [0x0A] @ spaces 12 @ js ''<div class="projects-filter">'' @
     [0x0A] @ spaces 16 @ js ''<div class="filter-buttons">'' @
     [0x0A] @ spaces 20 @ js ''<button class="filter-btn active" data-filter="all">'' @
       [0x5168, 0x90E8, 0x9879, 0x76EE] @ js ''</button>'' @
     [0x0A] @ spaces 20 @
       concat (map (\<lambda>tech. js ''<button class="filter-btn" data-filter="'' @ tech @ js ''">'' @
                            tech @ js ''</button>'') techTagList) @
     [0x0A] @ spaces 16 @ js ''</div>'' @
     [0x0A] @ spaces 12 @ js ''</div>'' @
     [0x0A] @ spaces 8\<close>

text \<open>
  The parser of the browser is a parameter: \<open>parse html\<close> is the list of elements of
  class \<open>filter-btn\<close> in the document after \<open>html\<close> has been inserted behind the
  header.
\<close>

definition setupFiltering :: "(jsstring \<Rightarrow> fbutton list) \<Rightarrow> projects_page \<Rightarrow> projects_page" where
  "setupFiltering parse d =
     (if \<not> header d then d
      else
        (let techTagSet = fold (\<lambda>tag s. set_add s (trim tag)) (techTagElements d) []
         in if length techTagSet = 0 then d
            else d\<lparr>filterButtons := parse (filterHTML techTagSet), filterStyles := True\<rparr>))"

text \<open>
  What the parser yields where no tag holds a character that is special in HTML and the
  markup has no element of class \<open>filter-btn\<close> of its own, and a parser that is right
  on the markup built from given tags of this kind.
\<close>

definition panel_buttons :: "jsstring list \<Rightarrow> fbutton list" where
  "panel_buttons techTagList =
     \<lparr>activeClass = True, dataFilter = js ''all''\<rparr> #
     map (\<lambda>tech. \<lparr>activeClass = False, dataFilter = tech\<rparr>) techTagList"

definition parse_panel :: "jsstring list \<Rightarrow> jsstring \<Rightarrow> fbutton list" where
  "parse_panel techTagList html =
     (if html = filterHTML techTagList then panel_buttons techTagList else [])"

subsection \<open>The click listener and the timers\<close>

fun filter_cards :: "jsstring \<Rightarrow> nat \<Rightarrow> tcard list \<Rightarrow> tcard list \<times> timeout list" where
  "filter_cards flt k [] = ([], [])"
| "filter_cards flt k (c # rest) =
     (let tags = map trim (techTags c);
          (rest', ts) = filter_cards flt (k + 1) rest
      in if flt = js ''all'' \<or> flt \<in> set tags
         then (c\<lparr>hiddenClass := False, fadeOutClass := False\<rparr> # rest', SetAnimation k # ts)
         else (c\<lparr>fadeOutClass := True\<rparr> # rest', AddHidden k # ts))"

definition click_filter :: "nat \<Rightarrow> projects_page \<Rightarrow> projects_page" where
  "click_filter i d =
     (if i < length (filterButtons d) then
        (let flt = dataFilter (filterButtons d ! i);
             bs = map (\<lambda>b. b\<lparr>activeClass := False\<rparr>) (filterButtons d);
             bs' = bs[i := (bs ! i)\<lparr>activeClass := True\<rparr>];
             (cs, ts) = filter_cards flt 0 (techCards d)
         in d\<lparr>filterButtons := bs', techCards := cs, timeouts := timeouts d @ ts\<rparr>)
      else d)"

text \<open>
  The \<open>n\<close>-th pending callback runs and is gone. Which one runs next is a matter of
  time; every order is allowed here.
\<close>

definition run_timeout :: "nat \<Rightarrow> projects_page \<Rightarrow> projects_page" where
  "run_timeout n d =
     (if n < length (timeouts d) then
        (let d' = d\<lparr>timeouts := take n (timeouts d) @ drop (n + 1) (timeouts d)\<rparr>
         in case timeouts d ! n of
              SetAnimation k \<Rightarrow>
                d'\<lparr>techCards := (techCards d')[k := (techCards d' ! k)
                     \<lparr>animationStyle := js ''fadeInUp 0.6s ease-out forwards''\<rparr>]\<rparr>
            | AddHidden k \<Rightarrow>
                d'\<lparr>techCards := (techCards d')[k := (techCards d' ! k)\<lparr>hiddenClass := True\<rparr>]\<rparr>)
      else d)"

datatype event = Click nat | Timeout nat

fun step :: "event \<Rightarrow> projects_page \<Rightarrow> projects_page" where
  "step (Click i) d = click_filter i d"
| "step (Timeout n) d = run_timeout n d"

definition run :: "event list \<Rightarrow> projects_page \<Rightarrow> projects_page" where
  "run evs d = fold step evs d"

section \<open>Notions of the specification\<close>

text \<open>
  Section 4.1 of the specification: an axis matches iff its selected value is \<open>all\<close> or
  equals the value extracted from the card (single-valued axis), or is a member of the
  values extracted from the card (multi-valued axis). The type axis extracts the
  \<open>project-type\<close> attribute, the tech axis the trimmed texts of the tag badges.
\<close>

definition type_axis_matches :: "filter \<Rightarrow> card \<Rightarrow> bool" where
  "type_axis_matches st c \<longleftrightarrow> type st = js ''all'' \<or> projectType c = Some (type st)"

definition tech_axis_matches :: "filter \<Rightarrow> card \<Rightarrow> bool" where
  "tech_axis_matches st c \<longleftrightarrow> tech st = js ''all'' \<or> tech st \<in> set (map trim (tagBadges c))"

definition both_match :: "filter \<Rightarrow> card \<Rightarrow> bool" where
  "both_match st c \<longleftrightarrow> type_axis_matches st c \<and> tech_axis_matches st c"

text \<open>A card is visible while it lacks the class \<open>hidden\<close>.\<close>

definition visible :: "card \<Rightarrow> bool" where
  "visible c \<longleftrightarrow> \<not> hidden c"

text \<open>The number of controls of a container that carry the active marking.\<close>

definition active_count :: "button list \<Rightarrow> nat" where
  "active_count bs = length (filter active bs)"

text \<open>The frequency of a tag label: the number of tag badges, over all cards, with that label.\<close>

definition occurrences :: "card list \<Rightarrow> jsstring \<Rightarrow> nat" where
  "occurrences cards t = count_list (concat (map (\<lambda>c. map trim (tagBadges c)) cards)) t"

section \<open>Auxiliary notions of the proofs\<close>

text \<open>The controls a container receives at initialisation, for the values in their order.\<close>

definition emitted :: "axis \<Rightarrow> jsstring list \<Rightarrow> button list" where
  "emitted a vs = createFilterButton (js ''all'') [0x5168, 0x90E8] True a #
                  map (\<lambda>v. createFilterButton v v False a) vs"

definition techOrder :: "jsstring sort_engine \<Rightarrow> card list \<Rightarrow> jsstring list" where
  "techOrder engine cards =
     (let (technologySet, techCount) = scanCards cards
      in sort_by engine (\<lambda>a b. minus_js (get_property techCount b) (get_property techCount a))
           technologySet)"

text \<open>
  The order of the tech values where the comparisons are consistent, and the page after
  loading for given values of the two axes in their order.
\<close>

definition stable_techOrder :: "card list \<Rightarrow> jsstring list" where
  "stable_techOrder cards =
     (let (technologySet, techCount) = scanCards cards
      in foldr (insort_by (\<lambda>a b. minus_js (get_property techCount b) (get_property techCount a)))
           technologySet [])"

definition tech_consistent :: "card list \<Rightarrow> bool" where
  "tech_consistent cards =
     (let (technologySet, techCount) = scanCards cards
      in consistent
           (SortCompare (\<lambda>a b. minus_js (get_property techCount b) (get_property techCount a)))
           technologySet)"

definition loaded_page :: "page \<Rightarrow> jsstring list \<Rightarrow> jsstring list \<Rightarrow> page" where
  "loaded_page markup types techs =
     markup\<lparr>currentFilter := \<lparr>type = js ''all'', tech = js ''all''\<rparr>,
            typeFiltersContainer := Some (emitted Type types),
            techFiltersContainer := Some (emitted Tech techs)\<rparr>"

text \<open>What the listener of the control at position \<open>i\<close> does to the controls of its container.\<close>

definition activate :: "nat \<Rightarrow> button list \<Rightarrow> button list" where
  "activate i bs = (map (\<lambda>s. s\<lparr>active := False\<rparr>) bs)[i := (bs ! i)\<lparr>active := True\<rparr>]"

text \<open>Every control of a container has a listener that has captured the axis of that container.\<close>

definition listeners_ok :: "page \<Rightarrow> bool" where
  "listeners_ok p \<longleftrightarrow>
     (\<forall>a bs. container a p = Some bs \<longrightarrow> (\<forall>b \<in> set bs. capturedFilterType b = a))"

text \<open>A \<open>techCount\<close> all of whose own properties are numbers, and the number under a key.\<close>

definition numeric :: "object \<Rightarrow> bool" where
  "numeric C \<longleftrightarrow> (\<forall>t. C t \<noteq> Some NotNumeric)"

definition num :: "object \<Rightarrow> jsstring \<Rightarrow> nat" where
  "num C t = (case C t of Some (Number n) \<Rightarrow> n | _ \<Rightarrow> 0)"

section \<open>Example pages\<close>

text \<open>
  A card as the markup gives it, and a page whose required elements all exist, with empty
  filter containers and no inline styles.
\<close>

definition mk_card :: "jsstring option \<Rightarrow> jsstring list \<Rightarrow> card" where
  "mk_card ty tags = \<lparr>projectType = ty, tagBadges = tags, hidden = False, animation = []\<rparr>"

definition markup_of :: "card list \<Rightarrow> page" where
  "markup_of cards =
     \<lparr>projectsGrid = Some \<lparr>display = []\<rparr>, projectCards = cards,
      typeFiltersContainer = Some [], techFiltersContainer = Some [],
      emptyState = Some \<lparr>display = []\<rparr>,
      currentFilter = \<lparr>type = js ''all'', tech = js ''all''\<rparr>\<rparr>"

text \<open>The cards of the concrete scenario in section 8 of the specification.\<close>

definition scenario_cards :: "card list" where
  "scenario_cards =
     [mk_card (Some (js ''A'')) [js ''x'', js ''y''],
      mk_card (Some (js ''B'')) [js ''y''],
      mk_card (Some (js ''A'')) [js ''z'']]"

definition no_match_page :: page where
  "no_match_page =
     (markup_of scenario_cards)\<lparr>currentFilter := \<lparr>type = js ''A'', tech = js ''q''\<rparr>\<rparr>"

text \<open>A card with neither a \<open>project-type\<close> attribute nor a tag badge.\<close>

definition bare_page :: page where
  "bare_page = markup_of [mk_card None [], mk_card (Some (js ''A'')) [js ''x'']]"

text \<open>A card one of whose tag badges holds a single space.\<close>

definition blank_badge_markup :: page where
  "blank_badge_markup = markup_of [mk_card (Some (js ''A'')) [js ''x'', js '' '']]"

text \<open>One card tagged \<open>constructor\<close> and two cards tagged \<open>a\<close>.\<close>

definition constructor_markup :: page where
  "constructor_markup =
     markup_of [mk_card None [js ''constructor''], mk_card None [js ''a''], mk_card None [js ''a'']]"

text \<open>Two cards without tags, and the same behind a tag element outside the cards.\<close>

definition untagged_card :: tcard where
  "untagged_card =
     \<lparr>techTags = [], hiddenClass = False, fadeOutClass = False, animationStyle = []\<rparr>"

definition untagged_nodes :: "node list" where
  "untagged_nodes = [Card untagged_card, Card untagged_card]"

definition stray_tag_page :: projects_page where
  "stray_tag_page =
     initial_page True [TechTag (js ''Python''), Card untagged_card, Card untagged_card]"

text \<open>An engine that leaves an array as it is where the comparisons are not consistent.\<close>

definition idle_engine :: "jsstring sort_engine" where
  "idle_engine cf xs = xs"

definition panel_page :: projects_page where
  "panel_page =
     \<lparr>header = True,
      techTagElements = [js ''Python'', js ''ReactJS''],
      techCards = [\<lparr>techTags = [js ''Python''], hiddenClass = False, fadeOutClass = False,
                    animationStyle = []\<rparr>,
                   \<lparr>techTags = [js ''ReactJS''], hiddenClass = False, fadeOutClass = False,
                    animationStyle = []\<rparr>],
      filterButtons = panel_buttons [js ''Python'', js ''ReactJS''],
      filterStyles = True, timeouts = []\<rparr>"

section \<open>String literals\<close>

lemma unat_of_char: "unat (of_char c :: jschar) = of_char c"
proof -
  have "(of_char c :: jschar) = of_nat (of_char c)"
    by (simp add: of_nat_of_char)
  moreover have "(of_char c :: nat) < 2 ^ 16"
  proof -
    have "(of_char c :: nat) < 256" by (rule nat_of_char_less_256)
    also have "(256 :: nat) < 2 ^ 16" by simp
    finally show ?thesis .
  qed
  ultimately show ?thesis
    by (simp add: unat_of_nat)
qed

lemma inj_of_char_jschar: "inj (of_char :: char \<Rightarrow> jschar)"
proof (rule injI)
  fix c d assume "(of_char c :: jschar) = of_char d"
  then have "unat (of_char c :: jschar) = unat (of_char d :: jschar)" by simp
  then show "c = d" by (simp add: unat_of_char)
qed

lemma js_eq_iff [simp]: "js a = js b \<longleftrightarrow> a = b"
  unfolding js_def by (rule inj_map_eq_map) (rule inj_of_char_jschar)

section \<open>The re-evaluation pass\<close>

subsection \<open>What applyFilters computes\<close>

lemma applyFilters_cards_eq:
  "applyFilters_cards flt cs n =
     (map (\<lambda>c. if type_axis_matches flt c \<and> tech_axis_matches flt c
                then c\<lparr>hidden := False, animation := js ''fadeInUp 0.5s ease-out forwards''\<rparr>
                else c\<lparr>hidden := True\<rparr>) cs,
      n + length (filter (\<lambda>c. type_axis_matches flt c \<and> tech_axis_matches flt c) cs))"
  by (induction cs arbitrary: n)
     (simp_all add: type_axis_matches_def tech_axis_matches_def Let_def)

lemma visible_after:
  "map visible (map (\<lambda>c. if P c then c\<lparr>hidden := False, animation := a\<rparr>
                             else c\<lparr>hidden := True\<rparr>) cs) = map P cs"
  by (induction cs) (simp_all add: visible_def)

lemma visible_count_after:
  "length (filter visible (map (\<lambda>c. if P c then c\<lparr>hidden := False, animation := a\<rparr>
                                      else c\<lparr>hidden := True\<rparr>) cs)) = length (filter P cs)"
  by (induction cs) (simp_all add: visible_def)

lemma projectCards_applyFilters:
  "projectCards (fst (applyFilters p)) =
     map (\<lambda>c. if type_axis_matches (currentFilter p) c \<and> tech_axis_matches (currentFilter p) c
                then c\<lparr>hidden := False, animation := js ''fadeInUp 0.5s ease-out forwards''\<rparr>
                else c\<lparr>hidden := True\<rparr>) (projectCards p)"
  by (simp add: applyFilters_def applyFilters_cards_eq Let_def split: option.splits)

lemma currentFilter_applyFilters: "currentFilter (fst (applyFilters p)) = currentFilter p"
  by (simp add: applyFilters_def applyFilters_cards_eq Let_def split: option.splits)

lemma containers_applyFilters:
  "typeFiltersContainer (fst (applyFilters p)) = typeFiltersContainer p"
  "techFiltersContainer (fst (applyFilters p)) = techFiltersContainer p"
  by (simp_all add: applyFilters_def applyFilters_cards_eq Let_def split: option.splits)

lemma visibleCount_applyFilters:
  "length (filter visible (projectCards (fst (applyFilters p)))) =
   length (filter (\<lambda>c. type_axis_matches (currentFilter p) c \<and> tech_axis_matches (currentFilter p) c)
             (projectCards p))"
  unfolding projectCards_applyFilters by (rule visible_count_after)

lemma applyFilters_throws:
  "snd (applyFilters p) =
     (if emptyState p = None \<or> projectsGrid p = None then Some TypeError else None)"
  by (simp add: applyFilters_def applyFilters_cards_eq Let_def split: option.splits)

lemma elements_applyFilters:
  assumes "emptyState p = Some e" and "projectsGrid p = Some g"
  shows "emptyState (fst (applyFilters p)) =
           Some (e\<lparr>display := (if length (filter visible (projectCards (fst (applyFilters p)))) = 0
                                then js ''block'' else js ''none'')\<rparr>)"
    and "projectsGrid (fst (applyFilters p)) =
           Some (g\<lparr>display := (if length (filter visible (projectCards (fst (applyFilters p)))) = 0
                                then js ''none'' else js ''grid'')\<rparr>)"
  unfolding visibleCount_applyFilters using assms
  by (simp_all add: applyFilters_def applyFilters_cards_eq Let_def del: length_0_conv)

lemma attrs_applyFilters:
  "map projectType (projectCards (fst (applyFilters p))) = map projectType (projectCards p)"
  "map tagBadges (projectCards (fst (applyFilters p))) = map tagBadges (projectCards p)"
  by (simp_all add: projectCards_applyFilters)

lemma visible_applyFilters:
  "map visible (projectCards (fst (applyFilters p))) =
     map (both_match (currentFilter p)) (projectCards p)"
  unfolding projectCards_applyFilters visible_after by (simp add: both_match_def)

lemma matches_upd [simp]:
  "type_axis_matches f (c\<lparr>hidden := h\<rparr>) = type_axis_matches f c"
  "tech_axis_matches f (c\<lparr>hidden := h\<rparr>) = tech_axis_matches f c"
  "type_axis_matches f (c\<lparr>animation := a\<rparr>) = type_axis_matches f c"
  "tech_axis_matches f (c\<lparr>animation := a\<rparr>) = tech_axis_matches f c"
  by (simp_all add: type_axis_matches_def tech_axis_matches_def)

lemma applyFilters_cards_twice:
  "applyFilters_cards flt (fst (applyFilters_cards flt cs n)) m =
     (fst (applyFilters_cards flt cs n), m + (snd (applyFilters_cards flt cs n) - n))"
  unfolding applyFilters_cards_eq by (induction cs) simp_all

subsection \<open>Visibility\<close>

text \<open>
  Claim C1. For every list of cards and every selection state, after \<open>applyFilters\<close> a
  card is visible if and only if it matches the type axis and the tech axis, where the
  type axis matches iff the selected type is \<open>all\<close> or equals the project type of the
  card, and the tech axis matches iff the selected tech is \<open>all\<close> or is among the tag
  labels of the card. The pass leaves the project type and the tag badges of every card
  as they were, so position by position the cards are the same.
\<close>

theorem applyFilters_visible_iff_match:
  "map visible (projectCards (fst (applyFilters p))) =
     map (\<lambda>c. type_axis_matches (currentFilter p) c \<and> tech_axis_matches (currentFilter p) c)
       (projectCards p)
   \<and> map projectType (projectCards (fst (applyFilters p))) = map projectType (projectCards p)
   \<and> map tagBadges (projectCards (fst (applyFilters p))) = map tagBadges (projectCards p)"
  unfolding projectCards_applyFilters visible_after by simp

text \<open>
  Claim C6. When the selected value is \<open>all\<close> on both axes, \<open>applyFilters\<close> makes every
  card visible.
\<close>

theorem all_sentinel_shows_every_card:
  assumes "type (currentFilter p) = js ''all''" and "tech (currentFilter p) = js ''all''"
  shows "map visible (projectCards (fst (applyFilters p))) =
           replicate (length (projectCards p)) True"
  unfolding projectCards_applyFilters visible_after using assms
  by (simp add: type_axis_matches_def tech_axis_matches_def map_replicate_const)

theorem all_sentinel_shows_every_card_witness:
  "type (currentFilter (markup_of scenario_cards)) = js ''all''
   \<and> tech (currentFilter (markup_of scenario_cards)) = js ''all''
   \<and> map visible (projectCards (fst (applyFilters (markup_of scenario_cards)))) =
       replicate (length (projectCards (markup_of scenario_cards))) True"
proof -
  have t: "type (currentFilter (markup_of scenario_cards)) = js ''all''"
    by (simp add: markup_of_def)
  have v: "tech (currentFilter (markup_of scenario_cards)) = js ''all''"
    by (simp add: markup_of_def)
  show ?thesis
    using all_sentinel_shows_every_card[OF t v] t v by blast
qed

text \<open>
  Claim C9. A card without a \<open>project-type\<close> attribute is visible after the pass iff the
  selected type is \<open>all\<close> and the tech axis matches; a card without tag badges is visible
  iff the selected tech is \<open>all\<close> and the type axis matches. Whether the pass throws
  depends on the presence of the empty-state element and of the grid only, never on a
  card.
\<close>

theorem card_without_metadata:
  assumes "i < length (projectCards p)"
  shows "(projectType (projectCards p ! i) = None \<longrightarrow>
            visible (projectCards (fst (applyFilters p)) ! i) =
              (type (currentFilter p) = js ''all'' \<and>
               tech_axis_matches (currentFilter p) (projectCards p ! i)))
       \<and> (tagBadges (projectCards p ! i) = [] \<longrightarrow>
            visible (projectCards (fst (applyFilters p)) ! i) =
              (tech (currentFilter p) = js ''all'' \<and>
               type_axis_matches (currentFilter p) (projectCards p ! i)))
       \<and> snd (applyFilters p) =
            (if emptyState p = None \<or> projectsGrid p = None then Some TypeError else None)"
  using assms
  by (auto simp add: projectCards_applyFilters applyFilters_throws visible_def
      type_axis_matches_def tech_axis_matches_def)

theorem card_without_metadata_witness:
  "0 < length (projectCards bare_page)
   \<and> projectType (projectCards bare_page ! 0) = None
   \<and> tagBadges (projectCards bare_page ! 0) = []
   \<and> visible (projectCards (fst (applyFilters bare_page)) ! 0) =
       (type (currentFilter bare_page) = js ''all'' \<and>
        tech_axis_matches (currentFilter bare_page) (projectCards bare_page ! 0))
   \<and> visible (projectCards (fst (applyFilters bare_page)) ! 0) =
       (tech (currentFilter bare_page) = js ''all'' \<and>
        type_axis_matches (currentFilter bare_page) (projectCards bare_page ! 0))
   \<and> snd (applyFilters bare_page) =
       (if emptyState bare_page = None \<or> projectsGrid bare_page = None
        then Some TypeError else None)"
proof -
  have l: "0 < length (projectCards bare_page)"
    by (simp add: bare_page_def markup_of_def)
  have t: "projectType (projectCards bare_page ! 0) = None"
    by (simp add: bare_page_def markup_of_def mk_card_def)
  have b: "tagBadges (projectCards bare_page ! 0) = []"
    by (simp add: bare_page_def markup_of_def mk_card_def)
  show ?thesis
    using card_without_metadata[OF l] l t b by blast
qed

subsection \<open>The empty-state indicator\<close>

text \<open>
  Claim C3. Where the empty-state element and the grid exist, after \<open>applyFilters\<close> the
  indicator is shown (\<open>display\<close> is \<open>block\<close>) if and only if no card is visible, and is
  hidden (\<open>none\<close>) otherwise; the grid is hidden (\<open>none\<close>) exactly when the indicator is
  shown, and is shown (\<open>grid\<close>) otherwise. This holds for every page, hence for every
  selection state a session reaches.
\<close>

theorem empty_state_iff_no_visible_card:
  assumes "emptyState p = Some e" and "projectsGrid p = Some g"
  shows "map_option display (emptyState (fst (applyFilters p))) =
           Some (if length (filter visible (projectCards (fst (applyFilters p)))) = 0
                 then js ''block'' else js ''none'')
       \<and> map_option display (projectsGrid (fst (applyFilters p))) =
           Some (if length (filter visible (projectCards (fst (applyFilters p)))) = 0
                 then js ''none'' else js ''grid'')"
  unfolding elements_applyFilters[OF assms] by simp

theorem empty_state_iff_no_visible_card_witness:
  "emptyState no_match_page = Some \<lparr>display = []\<rparr>
   \<and> projectsGrid no_match_page = Some \<lparr>display = []\<rparr>
   \<and> map_option display (emptyState (fst (applyFilters no_match_page))) =
           Some (if length (filter visible (projectCards (fst (applyFilters no_match_page)))) = 0
                 then js ''block'' else js ''none'')
   \<and> map_option display (projectsGrid (fst (applyFilters no_match_page))) =
           Some (if length (filter visible (projectCards (fst (applyFilters no_match_page)))) = 0
                 then js ''none'' else js ''grid'')"
proof -
  have e: "emptyState no_match_page = Some \<lparr>display = []\<rparr>"
    by (simp add: no_match_page_def markup_of_def)
  have g: "projectsGrid no_match_page = Some \<lparr>display = []\<rparr>"
    by (simp add: no_match_page_def markup_of_def)
  show ?thesis
    using empty_state_iff_no_visible_card[OF e g] e g by blast
qed

subsection \<open>Idempotence\<close>

text \<open>
  Claim C8. Running \<open>applyFilters\<close> a second time with the selection unchanged yields the
  same page and the same outcome as the first run: the cards and their visibility, the
  empty-state indicator and the grid, the controls of both containers and the selection
  are all as after the first run.
\<close>

theorem applyFilters_idempotent: "applyFilters (fst (applyFilters p)) = applyFilters p"
proof -
  obtain cs n where a: "applyFilters_cards (currentFilter p) (projectCards p) 0 = (cs, n)"
    by (cases "applyFilters_cards (currentFilter p) (projectCards p) 0")
  have b: "applyFilters_cards (currentFilter p) cs 0 = (cs, n)"
    using applyFilters_cards_twice[of "currentFilter p" "projectCards p" 0 0] a by simp
  show ?thesis
    by (simp add: applyFilters_def a b Let_def split: option.splits)
qed

section \<open>Clicks on the controls\<close>

subsection \<open>The effect of one click\<close>

lemma container_simps [simp]:
  "container a (set_container a bs p) = Some bs"
  "a' \<noteq> a \<Longrightarrow> container a' (set_container a bs p) = container a' p"
  "container a (p\<lparr>currentFilter := f\<rparr>) = container a p"
  "container a (fst (applyFilters p)) = container a p"
  "projectCards (set_container a bs p) = projectCards p"
  "currentFilter (set_container a bs p) = currentFilter p"
  by (cases a; cases a'; simp add: container_def set_container_def containers_applyFilters)+

lemma set_container_twice [simp]:
  "set_container a bs (set_container a bs' p) = set_container a bs p"
  by (simp add: set_container_def)

lemma click_none:
  "container a p = None \<Longrightarrow> click a i p = (p, None)"
  "container a p = Some bs \<Longrightarrow> \<not> i < length bs \<Longrightarrow> click a i p = (p, None)"
  by (simp_all add: click_def)

lemma click_invalid:
  assumes "\<not> (\<exists>bs. container a p = Some bs \<and> i < length bs)"
  shows "fst (click a i p) = p"
  using assms by (cases "container a p") (auto simp add: click_none)

lemma click_valid:
  assumes "listeners_ok p" and "container a p = Some bs" and "i < length bs"
  shows "click a i p =
    applyFilters (set_container a (activate i bs) p
       \<lparr>currentFilter := set_currentFilter a (dataValue (bs ! i)) (currentFilter p)\<rparr>)"
proof -
  have "capturedFilterType (bs ! i) = a"
    using assms by (auto simp add: listeners_ok_def)
  then show ?thesis
    using assms(2,3) by (simp add: click_def select_def Let_def activate_def)
qed

lemma length_activate [simp]: "length (activate i bs) = length bs"
  by (simp add: activate_def)

lemma nth_activate:
  "k < length bs \<Longrightarrow> activate i bs ! k = (bs ! k)\<lparr>active := (k = i)\<rparr>"
  by (cases "k = i") (simp_all add: activate_def)

lemma active_activate:
  "i < length bs \<Longrightarrow> map active (activate i bs) = (replicate (length bs) False)[i := True]"
  by (rule nth_equalityI) (simp_all add: nth_activate nth_list_update)

lemma active_count_activate:
  "i < length bs \<Longrightarrow> active_count (activate i bs) = 1"
proof (induction bs arbitrary: i)
  case Nil
  then show ?case by simp
next
  case (Cons b bs)
  have z: "filter active (map (\<lambda>s. s\<lparr>active := False\<rparr>) xs) = []" for xs :: "button list"
    by (induction xs) simp_all
  show ?case
  proof (cases i)
    case 0
    then show ?thesis by (simp add: active_count_def activate_def z)
  next
    case (Suc j)
    with Cons.prems have "j < length bs" by simp
    from Cons.IH[OF this] Suc show ?thesis
      by (simp add: active_count_def activate_def)
  qed
qed

lemma click_state:
  assumes "listeners_ok p" and "container a p = Some bs" and "i < length bs"
  shows "currentFilter (fst (click a i p)) =
           set_currentFilter a (dataValue (bs ! i)) (currentFilter p)"
    and "map visible (projectCards (fst (click a i p))) =
           map (both_match (set_currentFilter a (dataValue (bs ! i)) (currentFilter p)))
             (projectCards p)"
    and "a' \<noteq> a \<Longrightarrow> container a' (fst (click a i p)) = container a' p"
  unfolding click_valid[OF assms]
  by (simp_all add: currentFilter_applyFilters visible_applyFilters)

lemma attrs_click:
  "map projectType (projectCards (fst (click a i p))) = map projectType (projectCards p)"
  "map tagBadges (projectCards (fst (click a i p))) = map tagBadges (projectCards p)"
  by (simp_all add: click_def select_def Let_def attrs_applyFilters split: option.splits)

subsection \<open>Invariants of a sequence of clicks\<close>

lemma listeners_ok_click:
  assumes "listeners_ok p"
  shows "listeners_ok (fst (click a i p))"
proof (cases "\<exists>bs. container a p = Some bs \<and> i < length bs")
  case False
  then have "fst (click a i p) = p" by (rule click_invalid)
  with assms show ?thesis by simp
next
  case True
  then obtain bs where bs: "container a p = Some bs" "i < length bs" by blast
  have cap: "\<forall>b \<in> set bs. capturedFilterType b = a"
    using assms bs(1) by (simp add: listeners_ok_def)
  have "\<forall>b \<in> set (activate i bs). capturedFilterType b = a"
  proof
    fix b assume "b \<in> set (activate i bs)"
    then obtain k where "k < length bs" and "b = activate i bs ! k"
      by (metis in_set_conv_nth length_activate)
    then show "capturedFilterType b = a"
      using cap by (simp add: nth_activate)
  qed
  then show ?thesis
    unfolding click_valid[OF assms bs] listeners_ok_def
    using assms[unfolded listeners_ok_def]
    by (metis container_simps(1,2,3,4) option.inject)
qed

lemma one_active_click:
  assumes "listeners_ok p" and "map_option active_count (container a' p) = Some 1"
  shows "map_option active_count (container a' (fst (click a i p))) = Some 1"
proof (cases "\<exists>bs. container a p = Some bs \<and> i < length bs")
  case False
  then have "fst (click a i p) = p" by (rule click_invalid)
  with assms show ?thesis by simp
next
  case True
  then obtain bs where bs: "container a p = Some bs" "i < length bs" by blast
  show ?thesis
    unfolding click_valid[OF assms(1) bs]
    using assms(2) bs(2) by (cases "a' = a") (simp_all add: active_count_activate)
qed

lemma clicks_Nil [simp]: "clicks [] p = p"
  by (simp add: clicks_def)

lemma clicks_Cons [simp]: "clicks ((a, i) # evs) p = clicks evs (fst (click a i p))"
  by (simp add: clicks_def)

lemma clicks_append: "clicks (evs @ evs') p = clicks evs' (clicks evs p)"
  by (simp add: clicks_def)

lemma listeners_ok_clicks:
  "listeners_ok p \<Longrightarrow> listeners_ok (clicks evs p)"
proof (induction evs arbitrary: p)
  case Nil
  then show ?case by simp
next
  case (Cons ev evs)
  obtain a i where ev: "ev = (a, i)" by (cases ev)
  show ?case
    unfolding ev clicks_Cons using Cons.prems by (intro Cons.IH listeners_ok_click)
qed

lemma one_active_clicks:
  "listeners_ok p \<Longrightarrow> map_option active_count (container a' p) = Some 1 \<Longrightarrow>
   map_option active_count (container a' (clicks evs p)) = Some 1"
proof (induction evs arbitrary: p)
  case Nil
  then show ?case by simp
next
  case (Cons ev evs)
  obtain a i where ev: "ev = (a, i)" by (cases ev)
  show ?case
    unfolding ev clicks_Cons using Cons.prems
    by (intro Cons.IH listeners_ok_click one_active_click)
qed

section \<open>The values that become controls\<close>

subsection \<open>The type axis\<close>

lemma set_add_props:
  "set (set_add s x) = insert x (set s)"
  "distinct s \<Longrightarrow> distinct (set_add s x)"
  by (auto simp add: set_add_def)

lemma collectTypes_aux:
  "set (fold (\<lambda>c typeSet. case projectType c of None \<Rightarrow> typeSet
            | Some ty \<Rightarrow> if ty \<noteq> [] then set_add typeSet ty else typeSet) cs s) =
     set s \<union> {t. t \<noteq> [] \<and> Some t \<in> projectType ` set cs}"
  "distinct s \<Longrightarrow> distinct (fold (\<lambda>c typeSet. case projectType c of None \<Rightarrow> typeSet
            | Some ty \<Rightarrow> if ty \<noteq> [] then set_add typeSet ty else typeSet) cs s)"
  by (induction cs arbitrary: s) (auto simp add: set_add_props split: option.splits)

lemma collectTypes_set:
  "set (collectTypes cs) = {t. t \<noteq> [] \<and> Some t \<in> projectType ` set cs}"
  by (simp add: collectTypes_def collectTypes_aux(1))

lemma collectTypes_distinct: "distinct (collectTypes cs)"
  by (simp add: collectTypes_def collectTypes_aux(2))

text \<open>
  The values of the type axis are the project types that are not empty, each once, in
  the lexicographic order of their code units.
\<close>

lemma type_values:
  "set (sort (collectTypes cs)) = {t. t \<noteq> [] \<and> Some t \<in> projectType ` set cs}"
  "sorted (sort (collectTypes cs))"
  "distinct (sort (collectTypes cs))"
  "[] \<notin> set (sort (collectTypes cs))"
  by (simp_all add: collectTypes_distinct collectTypes_set)

subsection \<open>The tech axis\<close>

lemma fold_fold_concat: "fold (\<lambda>c. fold f (g c)) cs s = fold f (concat (map g cs)) s"
  by (induction cs arbitrary: s) simp_all

lemma scanCards_concat:
  "scanCards cards = fold scanTag (concat (map tagBadges cards)) ([], Map.empty)"
  by (simp add: scanCards_def fold_fold_concat)

lemma fst_scan:
  "fst (fold scanTag xs (s, C)) = fold (\<lambda>tag s. set_add s (trim tag)) xs s"
  by (induction xs arbitrary: s C) (simp_all add: scanTag_def Let_def)

lemma scan_set_aux:
  "set (fold (\<lambda>tag s. set_add s (f tag)) xs s) = set s \<union> f ` set xs"
  "distinct s \<Longrightarrow> distinct (fold (\<lambda>tag s. set_add s (f tag)) xs s)"
  by (induction xs arbitrary: s) (auto simp add: set_add_props)

lemma technologySet_set:
  "set (fst (scanCards cards)) = trim ` (\<Union>c \<in> set cards. set (tagBadges c))"
  by (simp add: scanCards_concat fst_scan scan_set_aux(1))

lemma technologySet_distinct: "distinct (fst (scanCards cards))"
  by (simp add: scanCards_concat fst_scan scan_set_aux(2))

lemma set_insort_by: "set (insort_by cmp x ys) = insert x (set ys)"
  by (induction ys) auto

lemma distinct_insort_by: "distinct (insort_by cmp x ys) \<longleftrightarrow> x \<notin> set ys \<and> distinct ys"
  by (induction ys) (auto simp add: set_insort_by)

lemma sorted_insort_by:
  assumes "\<forall>y \<in> set ys. SortCompare cmp x y = int (k y) - int (k x)"
    and "sorted_wrt (\<lambda>a b. k b \<le> k a) ys"
  shows "sorted_wrt (\<lambda>a b. k b \<le> k a) (insort_by cmp x ys)"
  using assms
proof (induction ys)
  case Nil
  then show ?case by simp
next
  case (Cons y ys)
  show ?case
  proof (cases "SortCompare cmp x y \<le> 0")
    case True
    then have "k y \<le> k x" using Cons.prems(1) by simp
    then show ?thesis using True Cons.prems(2) by auto
  next
    case False
    then have "k x \<le> k y" using Cons.prems(1) by simp
    then show ?thesis
      using False Cons by (auto simp add: set_insort_by)
  qed
qed

lemma set_stable_sort: "set (foldr (insort_by cmp) xs []) = set xs"
  by (induction xs) (simp_all add: set_insort_by)

lemma distinct_stable_sort: "distinct (foldr (insort_by cmp) xs []) \<longleftrightarrow> distinct xs"
  by (induction xs) (simp_all add: distinct_insort_by set_stable_sort)

lemma sorted_stable_sort:
  assumes "\<forall>x \<in> set xs. \<forall>y \<in> set xs. SortCompare cmp x y = int (k y) - int (k x)"
  shows "sorted_wrt (\<lambda>a b. k b \<le> k a) (foldr (insort_by cmp) xs [])"
  using assms
proof (induction xs)
  case Nil
  then show ?case by simp
next
  case (Cons x xs)
  have "sorted_wrt (\<lambda>a b. k b \<le> k a) (foldr (insort_by cmp) xs [])"
    using Cons by simp
  moreover have "\<forall>y \<in> set (foldr (insort_by cmp) xs []).
                   SortCompare cmp x y = int (k y) - int (k x)"
    using Cons.prems by (simp add: set_stable_sort)
  ultimately show ?case
    by (simp add: sorted_insort_by)
qed

text \<open>Comparisons that are the differences of a key are consistent.\<close>

lemma consistent_triples_key:
  assumes "\<forall>x \<in> S. \<forall>y \<in> S. cf x y = int (k y) - int (k x)"
    and "a \<in> S" and "b \<in> S" and "set cs \<subseteq> S"
  shows "consistent_triples cf a b cs"
  using assms(4)
proof (induction cs)
  case Nil
  then show ?case by simp
next
  case (Cons c cs)
  then have c: "c \<in> S" and cs: "set cs \<subseteq> S" by simp_all
  have "cf a b = int (k b) - int (k a)" "cf b c = int (k c) - int (k b)"
    "cf a c = int (k c) - int (k a)"
    using assms(1,2,3) c by simp_all
  then show ?case
    using Cons.IH[OF cs] by simp
qed

lemma consistent_pairs_key:
  assumes "\<forall>x \<in> S. \<forall>y \<in> S. cf x y = int (k y) - int (k x)"
    and "a \<in> S" and "set bs \<subseteq> S" and "set xs \<subseteq> S"
  shows "consistent_pairs cf a bs xs"
  using assms(3)
proof (induction bs)
  case Nil
  then show ?case by simp
next
  case (Cons b bs)
  then have b: "b \<in> S" and bs: "set bs \<subseteq> S" by simp_all
  have "cf a b = int (k b) - int (k a)" "cf b a = int (k a) - int (k b)"
    using assms(1,2) b by simp_all
  then show ?case
    using Cons.IH[OF bs] consistent_triples_key[OF assms(1,2) b assms(4)] by simp
qed

lemma consistent_elements_key:
  assumes "\<forall>x \<in> S. \<forall>y \<in> S. cf x y = int (k y) - int (k x)"
    and "set as \<subseteq> S" and "set xs \<subseteq> S"
  shows "consistent_elements cf as xs"
  using assms(2)
proof (induction as)
  case Nil
  then show ?case by simp
next
  case (Cons a as)
  then have a: "a \<in> S" and as: "set as \<subseteq> S" by simp_all
  have "cf a a = 0" using assms(1) a by simp
  then show ?case
    using Cons.IH[OF as] consistent_pairs_key[OF assms(1) a assms(3) assms(3)] by simp
qed

lemma consistent_key:
  assumes "\<forall>x \<in> set xs. \<forall>y \<in> set xs. cf x y = int (k y) - int (k x)"
  shows "consistent cf xs"
  unfolding consistent_def
  by (rule consistent_elements_key[OF assms]) simp_all

lemma sort_by_consistent:
  "consistent (SortCompare cmp) xs \<Longrightarrow> sort_by engine cmp xs = foldr (insort_by cmp) xs []"
  by (simp add: sort_by_def)

lemma techOrder_stable:
  "tech_consistent cards \<Longrightarrow> techOrder engine cards = stable_techOrder cards"
  by (simp add: tech_consistent_def techOrder_def stable_techOrder_def sort_by_consistent
      split: prod.splits)

lemma proto_key: "js ''__proto__'' \<in> set Object_prototype"
  by (simp add: Object_prototype_def)

lemma scanTag_plain:
  assumes "trim tag \<notin> set Object_prototype" and "numeric C"
  shows "scanTag tag (s, C) =
           (set_add s (trim tag), C(trim tag \<mapsto> Number (num C (trim tag) + 1)))"
proof -
  have 1: "trim tag \<noteq> js ''__proto__''" using assms(1) proto_key by metis
  have 2: "C (trim tag) \<noteq> Some NotNumeric" using assms(2) by (simp add: numeric_def)
  show ?thesis
    using 1 2 assms(1)
    by (simp add: scanTag_def Let_def set_property_def get_property_def or_zero_plus_one_def
        num_def split: option.splits jsvalue.splits)
qed

lemma scan_keeps_property:
  "C t \<noteq> None \<Longrightarrow> snd (fold scanTag ys (s, C)) t \<noteq> None"
proof (induction ys arbitrary: s C)
  case Nil
  then show ?case by simp
next
  case (Cons y ys)
  have "snd (scanTag y (s, C)) t \<noteq> None"
    using Cons.prems by (simp add: scanTag_def Let_def set_property_def)
  then show ?case
    using Cons.IH[of "snd (scanTag y (s, C))" "fst (scanTag y (s, C))"] by simp
qed

lemma snd_scan:
  assumes "\<forall>tag \<in> set xs. trim tag \<notin> set Object_prototype" and "numeric C"
  shows "numeric (snd (fold scanTag xs (s, C)))
       \<and> (\<forall>t. num (snd (fold scanTag xs (s, C))) t = num C t + count_list (map trim xs) t)
       \<and> (\<forall>t \<in> trim ` set xs. snd (fold scanTag xs (s, C)) t \<noteq> None)"
  using assms
proof (induction xs arbitrary: s C)
  case Nil
  then show ?case by simp
next
  case (Cons x xs)
  let ?C = "C(trim x \<mapsto> Number (num C (trim x) + 1))"
  have st: "scanTag x (s, C) = (set_add s (trim x), ?C)"
    using Cons.prems by (intro scanTag_plain) simp_all
  have n: "numeric ?C" using Cons.prems(2) by (simp add: numeric_def)
  have p': "\<forall>tag \<in> set xs. trim tag \<notin> set Object_prototype"
    using Cons.prems(1) by simp
  define F where "F = snd (fold scanTag xs (set_add s (trim x), ?C))"
  have eq: "snd (fold scanTag (x # xs) (s, C)) = F"
    by (simp add: st F_def)
  note ih = Cons.IH[OF p' n, of "set_add s (trim x)", folded F_def]
  have nC: "num ?C t = num C t + (if t = trim x then 1 else 0)" for t
    by (simp add: num_def)
  have "?C (trim x) \<noteq> None" by simp
  then have kx: "F (trim x) \<noteq> None"
    unfolding F_def by (rule scan_keeps_property)
  show ?case
    unfolding eq
  proof (intro conjI allI ballI)
    show "numeric F" using ih by blast
  next
    fix t
    have "num F t = num ?C t + count_list (map trim xs) t" using ih by blast
    then show "num F t = num C t + count_list (map trim (x # xs)) t"
      unfolding nC by auto
  next
    fix t assume "t \<in> trim ` set (x # xs)"
    then have "t = trim x \<or> t \<in> trim ` set xs" by auto
    then show "F t \<noteq> None" using kx ih by blast
  qed
qed

lemma techCount_numbers:
  assumes "\<forall>c \<in> set cards. \<forall>tag \<in> set (tagBadges c). trim tag \<notin> set Object_prototype"
    and "t \<in> set (fst (scanCards cards))"
  shows "get_property (snd (scanCards cards)) t = Some (Number (occurrences cards t))"
proof -
  let ?xs = "concat (map tagBadges cards)"
  have p: "\<forall>tag \<in> set ?xs. trim tag \<notin> set Object_prototype"
    using assms(1) by auto
  have e: "numeric Map.empty" by (simp add: numeric_def)
  note s = snd_scan[OF p e, of "[]", folded scanCards_concat]
  have t: "t \<in> trim ` set ?xs"
    using assms(2) by (simp add: technologySet_set)
  then have "snd (scanCards cards) t \<noteq> None" using s by blast
  moreover have "snd (scanCards cards) t \<noteq> Some NotNumeric"
    using s by (simp add: numeric_def)
  moreover have "num (snd (scanCards cards)) t = count_list (map trim ?xs) t"
    using s by (simp add: num_def)
  moreover have "map trim ?xs = concat (map (\<lambda>c. map trim (tagBadges c)) cards)"
    by (simp add: map_concat o_def)
  ultimately show ?thesis
    by (auto simp add: get_property_def occurrences_def num_def
        split: option.splits jsvalue.splits)
qed

text \<open>
  Where the comparisons are consistent, the values of the tech axis are the trimmed texts
  of the tag badges, each once. Where no tag has the name of a member of
  \<open>Object.prototype\<close>, the comparisons are consistent and the values are in the order
  of descending frequency, whatever the engine.
\<close>

lemma stable_techOrder_set:
  "set (stable_techOrder cards) = trim ` (\<Union>c \<in> set cards. set (tagBadges c))"
  "distinct (stable_techOrder cards)"
proof -
  obtain S C where sc: "scanCards cards = (S, C)" by (cases "scanCards cards")
  show "set (stable_techOrder cards) = trim ` (\<Union>c \<in> set cards. set (tagBadges c))"
    using technologySet_set[of cards] by (simp add: stable_techOrder_def sc set_stable_sort)
  show "distinct (stable_techOrder cards)"
    using technologySet_distinct[of cards]
    by (simp add: stable_techOrder_def sc distinct_stable_sort)
qed

lemma tech_comparisons_plain:
  assumes "\<forall>c \<in> set cards. \<forall>tag \<in> set (tagBadges c). trim tag \<notin> set Object_prototype"
    and "scanCards cards = (S, C)"
  shows "\<forall>x \<in> set S. \<forall>y \<in> set S.
          SortCompare (\<lambda>a b. minus_js (get_property C b) (get_property C a)) x y =
            int (occurrences cards y) - int (occurrences cards x)"
  using techCount_numbers[OF assms(1)] assms(2) by (simp add: SortCompare_def minus_js_def)

lemma tech_consistent_plain:
  assumes "\<forall>c \<in> set cards. \<forall>tag \<in> set (tagBadges c). trim tag \<notin> set Object_prototype"
  shows "tech_consistent cards"
proof -
  obtain S C where sc: "scanCards cards = (S, C)" by (cases "scanCards cards")
  show ?thesis
    unfolding tech_consistent_def sc
    using consistent_key[OF tech_comparisons_plain[OF assms sc]] by simp
qed

lemma techOrder_plain:
  assumes "\<forall>c \<in> set cards. \<forall>tag \<in> set (tagBadges c). trim tag \<notin> set Object_prototype"
  shows "techOrder engine cards = stable_techOrder cards"
  by (rule techOrder_stable) (rule tech_consistent_plain[OF assms])

lemma techOrder_descending:
  assumes "\<forall>c \<in> set cards. \<forall>tag \<in> set (tagBadges c). trim tag \<notin> set Object_prototype"
  shows "sorted_wrt (\<lambda>a b. occurrences cards b \<le> occurrences cards a) (techOrder engine cards)"
    and "set (techOrder engine cards) = trim ` (\<Union>c \<in> set cards. set (tagBadges c))"
    and "distinct (techOrder engine cards)"
proof -
  obtain S C where sc: "scanCards cards = (S, C)" by (cases "scanCards cards")
  have "sorted_wrt (\<lambda>a b. occurrences cards b \<le> occurrences cards a) (stable_techOrder cards)"
    unfolding stable_techOrder_def sc
    using sorted_stable_sort[OF tech_comparisons_plain[OF assms sc]] by simp
  then show "sorted_wrt (\<lambda>a b. occurrences cards b \<le> occurrences cards a)
               (techOrder engine cards)"
    by (simp add: techOrder_plain[OF assms])
  show "set (techOrder engine cards) = trim ` (\<Union>c \<in> set cards. set (tagBadges c))"
    by (simp add: techOrder_plain[OF assms] stable_techOrder_set)
  show "distinct (techOrder engine cards)"
    by (simp add: techOrder_plain[OF assms] stable_techOrder_set)
qed

text \<open>
  A tag with the name of a member of \<open>Object.prototype\<close> compares as equal to every
  tag, and every tag compares as equal to itself.
\<close>

lemma tech_compare_self:
  "SortCompare (\<lambda>a b. minus_js (get_property C b) (get_property C a)) x x = 0"
  by (simp add: SortCompare_def minus_js_def split: option.splits jsvalue.splits)

lemma tech_compare_not_numeric:
  assumes "get_property C x = Some NotNumeric"
  shows "SortCompare (\<lambda>a b. minus_js (get_property C b) (get_property C a)) x y = 0"
    and "SortCompare (\<lambda>a b. minus_js (get_property C b) (get_property C a)) y x = 0"
  using assms
  by (simp_all add: SortCompare_def minus_js_def split: option.splits jsvalue.splits)

section \<open>Initialisation and sessions\<close>

lemma initTypeFilters_eq:
  "initTypeFilters p =
     (case typeFiltersContainer p of
        None \<Rightarrow> (p, Some TypeError)
      | Some children \<Rightarrow>
          (p\<lparr>typeFiltersContainer :=
               Some (children @ emitted Type (sort (collectTypes (projectCards p))))\<rparr>, None))"
  by (simp add: initTypeFilters_def emitted_def Let_def split: option.splits)

lemma initTechFilters_eq:
  "initTechFilters engine p =
     (case techFiltersContainer p of
        None \<Rightarrow> (p, Some TypeError)
      | Some children \<Rightarrow>
          (p\<lparr>techFiltersContainer :=
               Some (children @ emitted Tech (techOrder engine (projectCards p)))\<rparr>, None))"
  by (simp add: initTechFilters_def emitted_def techOrder_def Let_def
      split: prod.splits option.splits)

lemma DOMContentLoaded_eq:
  assumes "typeFiltersContainer markup = Some bsT" and "techFiltersContainer markup = Some bsV"
  shows "DOMContentLoaded engine markup =
     (markup\<lparr>currentFilter := \<lparr>type = js ''all'', tech = js ''all''\<rparr>,
             typeFiltersContainer :=
               Some (bsT @ emitted Type (sort (collectTypes (projectCards markup)))),
             techFiltersContainer :=
               Some (bsV @ emitted Tech (techOrder engine (projectCards markup)))\<rparr>, None)"
  using assms by (simp add: DOMContentLoaded_def initTypeFilters_eq initTechFilters_eq)

lemma active_count_emitted: "active_count (emitted a vs) = 1"
proof -
  have "filter active (map (\<lambda>v. createFilterButton v v False a) vs) = []"
    by (induction vs) (simp_all add: createFilterButton_def)
  then show ?thesis
    by (simp add: emitted_def active_count_def createFilterButton_def)
qed

lemma active_emitted: "map active (emitted a vs) = True # replicate (length vs) False"
  by (simp add: emitted_def createFilterButton_def o_def map_replicate_const)

lemma dataValue_emitted: "map dataValue (emitted a vs) = js ''all'' # vs"
  by (simp add: emitted_def createFilterButton_def o_def)

lemma captured_emitted: "b \<in> set (emitted a vs) \<Longrightarrow> capturedFilterType b = a"
  by (auto simp add: emitted_def createFilterButton_def)

lemma loaded_invariant:
  assumes "typeFiltersContainer markup = Some []" and "techFiltersContainer markup = Some []"
  shows "listeners_ok (fst (DOMContentLoaded engine markup))"
    and "map_option active_count (container a (fst (DOMContentLoaded engine markup))) = Some 1"
proof -
  show "listeners_ok (fst (DOMContentLoaded engine markup))"
    unfolding DOMContentLoaded_eq[OF assms] listeners_ok_def
  proof (intro allI impI ballI)
    fix a' bs b
    assume "container a' (fst (markup\<lparr>currentFilter := \<lparr>type = js ''all'', tech = js ''all''\<rparr>,
             typeFiltersContainer :=
               Some ([] @ emitted Type (sort (collectTypes (projectCards markup)))),
             techFiltersContainer :=
               Some ([] @ emitted Tech (techOrder engine (projectCards markup)))\<rparr>, None)) = Some bs"
      and "b \<in> set bs"
    then show "capturedFilterType b = a'"
      by (cases a') (auto simp add: container_def captured_emitted)
  qed
  show "map_option active_count (container a (fst (DOMContentLoaded engine markup))) = Some 1"
    unfolding DOMContentLoaded_eq[OF assms]
    by (cases a) (simp_all add: container_def active_count_emitted)
qed

lemma session_invariant:
  assumes "typeFiltersContainer markup = Some []" and "techFiltersContainer markup = Some []"
  shows "listeners_ok (session engine markup evs)"
    and "map_option active_count (container a (session engine markup evs)) = Some 1"
  unfolding session_def
  by (intro listeners_ok_clicks one_active_clicks loaded_invariant assms)+

lemma session_snoc:
  "session engine markup (evs @ [(a, i)]) = fst (click a i (session engine markup evs))"
  by (simp add: session_def clicks_append)

text \<open>The page after loading, in general and for the example pages.\<close>

lemma fst_DOMContentLoaded:
  assumes "typeFiltersContainer markup = Some []" and "techFiltersContainer markup = Some []"
  shows "fst (DOMContentLoaded engine markup) =
           loaded_page markup (sort (collectTypes (projectCards markup)))
             (techOrder engine (projectCards markup))"
  unfolding DOMContentLoaded_eq[OF assms] by (simp add: loaded_page_def)

lemma containers_markup_of:
  "typeFiltersContainer (markup_of cards) = Some []"
  "techFiltersContainer (markup_of cards) = Some []"
  "projectCards (markup_of cards) = cards"
  by (simp_all add: markup_of_def)

lemma loaded_scenario:
  "fst (DOMContentLoaded engine (markup_of scenario_cards)) =
     loaded_page (markup_of scenario_cards) [js ''A'', js ''B''] [js ''y'', js ''x'', js ''z'']"
proof -
  have p: "\<forall>c \<in> set scenario_cards. \<forall>tag \<in> set (tagBadges c).
             trim tag \<notin> set Object_prototype"
    by code_simp
  have t: "sort (collectTypes scenario_cards) = [js ''A'', js ''B'']"
    by code_simp
  have o: "stable_techOrder scenario_cards = [js ''y'', js ''x'', js ''z'']"
    by code_simp
  show ?thesis
    by (simp add: fst_DOMContentLoaded containers_markup_of techOrder_plain[OF p] t o)
qed

lemma loaded_blank_badge:
  "fst (DOMContentLoaded engine blank_badge_markup) =
     loaded_page blank_badge_markup [js ''A''] [js ''x'', []]"
proof -
  have p: "\<forall>c \<in> set (projectCards blank_badge_markup). \<forall>tag \<in> set (tagBadges c).
             trim tag \<notin> set Object_prototype"
    by code_simp
  have t: "sort (collectTypes (projectCards blank_badge_markup)) = [js ''A'']"
    by code_simp
  have o: "stable_techOrder (projectCards blank_badge_markup) = [js ''x'', []]"
    by code_simp
  have c: "typeFiltersContainer blank_badge_markup = Some []"
    "techFiltersContainer blank_badge_markup = Some []"
    by (simp_all add: blank_badge_markup_def containers_markup_of)
  show ?thesis
    by (simp add: fst_DOMContentLoaded[OF c] techOrder_plain[OF p] t o)
qed

lemma loaded_constructor:
  "fst (DOMContentLoaded engine constructor_markup) =
     loaded_page constructor_markup [] [js ''constructor'', js ''a'']"
proof -
  obtain S C where sc: "scanCards (projectCards constructor_markup) = (S, C)"
    by (cases "scanCards (projectCards constructor_markup)")
  have "fst (scanCards (projectCards constructor_markup)) = [js ''constructor'', js ''a'']"
    by code_simp
  then have S: "S = [js ''constructor'', js ''a'']" by (simp add: sc)
  have "get_property (snd (scanCards (projectCards constructor_markup))) (js ''constructor'') =
          Some NotNumeric"
    by code_simp
  then have g: "get_property C (js ''constructor'') = Some NotNumeric" by (simp add: sc)
  have "\<forall>x \<in> set S. \<forall>y \<in> set S.
          SortCompare (\<lambda>a b. minus_js (get_property C b) (get_property C a)) x y =
            int ((\<lambda>_. 0 :: nat) y) - int ((\<lambda>_. 0 :: nat) x)"
    unfolding S using tech_compare_not_numeric[OF g] tech_compare_self[of C]
    by simp
  then have "consistent
               (SortCompare (\<lambda>a b. minus_js (get_property C b) (get_property C a))) S"
    by (rule consistent_key)
  then have "tech_consistent (projectCards constructor_markup)"
    unfolding tech_consistent_def sc by simp
  then have e: "techOrder engine (projectCards constructor_markup) =
                  stable_techOrder (projectCards constructor_markup)"
    by (rule techOrder_stable)
  have t: "sort (collectTypes (projectCards constructor_markup)) = []"
    by code_simp
  have o: "stable_techOrder (projectCards constructor_markup) = [js ''constructor'', js ''a'']"
    by code_simp
  have c: "typeFiltersContainer constructor_markup = Some []"
    "techFiltersContainer constructor_markup = Some []"
    by (simp_all add: constructor_markup_def containers_markup_of)
  show ?thesis
    by (simp add: fst_DOMContentLoaded[OF c] e t o)
qed

text \<open>The concrete scenarios of section 8 of the specification, by evaluation.\<close>

lemma scenario_type_then_tech_then_reset:
  "map visible (projectCards (session engine (markup_of scenario_cards) [(Type, 1)])) =
     [True, False, True]"
  "map visible (projectCards (session engine (markup_of scenario_cards) [(Type, 1), (Tech, 1)])) =
     [True, False, False]"
  "map visible (projectCards
     (session engine (markup_of scenario_cards) [(Type, 1), (Tech, 1), (Type, 0)])) =
     [True, True, False]"
  unfolding session_def loaded_scenario by code_simp+

lemma scenario_no_match:
  "length (filter visible (projectCards (fst (applyFilters no_match_page)))) = 0"
  "map_option display (emptyState (fst (applyFilters no_match_page))) = Some (js ''block'')"
  "map_option display (projectsGrid (fst (applyFilters no_match_page))) = Some (js ''none'')"
  by code_simp+

section \<open>The controls of the single-axis controller\<close>

lemma active_click_filter:
  assumes "i < length (filterButtons d)"
  shows "map activeClass (filterButtons (click_filter i d)) =
           (replicate (length (filterButtons d)) False)[i := True]"
  using assms
  by (simp add: click_filter_def Let_def split: prod.splits)
     (rule nth_equalityI, simp_all add: nth_list_update)

lemma filterButtons_run_timeout: "filterButtons (run_timeout n d) = filterButtons d"
  by (simp add: run_timeout_def Let_def split: timeout.splits)

lemma count_one_hot:
  "i < n \<Longrightarrow> length (filter (\<lambda>b. b) ((replicate n False)[i := True])) = 1"
proof (induction n arbitrary: i)
  case 0
  then show ?case by simp
next
  case (Suc n)
  then show ?case by (cases i) simp_all
qed

lemma one_active_step:
  assumes "length (filter activeClass (filterButtons d)) = 1"
  shows "length (filter activeClass (filterButtons (step ev d))) = 1"
proof (cases ev)
  case (Click i)
  show ?thesis
  proof (cases "i < length (filterButtons d)")
    case True
    have "length (filter activeClass (filterButtons (click_filter i d))) =
          length (filter (\<lambda>b. b) (map activeClass (filterButtons (click_filter i d))))"
      by (simp add: filter_map o_def)
    also have "\<dots> = 1"
      unfolding active_click_filter[OF True] using True by (rule count_one_hot)
    finally show ?thesis using Click by simp
  next
    case False
    then show ?thesis using Click assms by (simp add: click_filter_def)
  qed
next
  case (Timeout n)
  then show ?thesis using assms by (simp add: filterButtons_run_timeout)
qed

lemma one_active_run:
  "length (filter activeClass (filterButtons d)) = 1 \<Longrightarrow>
   length (filter activeClass (filterButtons (run evs d))) = 1"
  unfolding run_def
  by (induction evs arbitrary: d) (simp_all add: one_active_step)

lemma one_active_panel_buttons: "length (filter activeClass (panel_buttons ts)) = 1"
proof -
  have "filter activeClass (map (\<lambda>tech. \<lparr>activeClass = False, dataFilter = tech\<rparr>) ts) = []"
    by (induction ts) simp_all
  then show ?thesis by (simp add: panel_buttons_def)
qed

section \<open>Mutual exclusion of the active marking\<close>

text \<open>
  Claim C2. In the two-axis controller, on a page whose two filter containers exist and
  hold no control before the script runs, after loading and any sequence of clicks
  exactly one control of each container carries the active marking; a click on the
  control at position \<open>i\<close> of a container leaves that control active and every other
  control of the container inactive. In the single-axis controller a click on the button
  at position \<open>j\<close> leaves that button active and every other button inactive, and clicks
  and timers keep the number of active buttons at one.
\<close>

theorem exactly_one_active_control:
  assumes "typeFiltersContainer markup = Some []" and "techFiltersContainer markup = Some []"
  shows "map_option active_count (container a (session engine markup evs)) = Some 1
       \<and> (container a (session engine markup evs) = Some bs \<and> i < length bs \<longrightarrow>
            map_option (map active) (container a (session engine markup (evs @ [(a, i)]))) =
              Some ((replicate (length bs) False)[i := True]))
       \<and> (length (filter activeClass (filterButtons d)) = 1 \<longrightarrow>
            length (filter activeClass (filterButtons (run evs' d))) = 1)
       \<and> (j < length (filterButtons d) \<longrightarrow>
            map activeClass (filterButtons (click_filter j d)) =
              (replicate (length (filterButtons d)) False)[j := True])"
proof (intro conjI impI)
  show "map_option active_count (container a (session engine markup evs)) = Some 1"
    by (rule session_invariant[OF assms])
next
  assume h: "container a (session engine markup evs) = Some bs \<and> i < length bs"
  then show "map_option (map active) (container a (session engine markup (evs @ [(a, i)]))) =
              Some ((replicate (length bs) False)[i := True])"
    unfolding session_snoc
    by (simp add: click_valid[OF session_invariant(1)[OF assms]] active_activate)
next
  assume "length (filter activeClass (filterButtons d)) = 1"
  then show "length (filter activeClass (filterButtons (run evs' d))) = 1"
    by (rule one_active_run)
next
  assume "j < length (filterButtons d)"
  then show "map activeClass (filterButtons (click_filter j d)) =
              (replicate (length (filterButtons d)) False)[j := True]"
    by (rule active_click_filter)
qed

theorem exactly_one_active_control_witness:
  "typeFiltersContainer (markup_of scenario_cards) = Some []
   \<and> techFiltersContainer (markup_of scenario_cards) = Some []
   \<and> map_option active_count (container Type (session idle_engine (markup_of scenario_cards) [])) = Some 1
   \<and> container Type (session idle_engine (markup_of scenario_cards) []) =
        Some (emitted Type [js ''A'', js ''B''])
   \<and> 1 < length (emitted Type [js ''A'', js ''B''])
   \<and> map_option (map active)
        (container Type (session idle_engine (markup_of scenario_cards) ([] @ [(Type, 1)]))) =
        Some ((replicate (length (emitted Type [js ''A'', js ''B''])) False)[1 := True])
   \<and> length (filter activeClass (filterButtons panel_page)) = 1
   \<and> length (filter activeClass
        (filterButtons (run [Click 2, Timeout 0, Click 1] panel_page))) = 1
   \<and> 2 < length (filterButtons panel_page)
   \<and> map activeClass (filterButtons (click_filter 2 panel_page)) =
        (replicate (length (filterButtons panel_page)) False)[2 := True]"
proof -
  have t: "typeFiltersContainer (markup_of scenario_cards) = Some []"
    by (simp add: markup_of_def)
  have v: "techFiltersContainer (markup_of scenario_cards) = Some []"
    by (simp add: markup_of_def)
  have c: "container Type (session idle_engine (markup_of scenario_cards) []) =
             Some (emitted Type [js ''A'', js ''B''])"
    by (simp add: session_def loaded_scenario loaded_page_def container_def)
  have l: "1 < length (emitted Type [js ''A'', js ''B''])"
    by (simp add: emitted_def)
  have p: "length (filter activeClass (filterButtons panel_page)) = 1"
    by (simp add: panel_page_def panel_buttons_def)
  have q: "2 < length (filterButtons panel_page)"
    by (simp add: panel_page_def panel_buttons_def)
  show ?thesis
    using exactly_one_active_control[OF t v, of Type idle_engine "[]" "emitted Type [js ''A'', js ''B'']" 1
            panel_page "[Click 2, Timeout 0, Click 1]" 2] t v c l p q
    by blast
qed

section \<open>Order independence across the axes\<close>

lemma both_match_cong:
  assumes "map projectType cs = map projectType cs'" and "map tagBadges cs = map tagBadges cs'"
  shows "map (both_match g) cs = map (both_match g) cs'"
proof (rule nth_equalityI)
  show "length (map (both_match g) cs) = length (map (both_match g) cs')"
    using assms(1) by (metis length_map)
next
  fix k assume "k < length (map (both_match g) cs)"
  then have k: "k < length cs" by simp
  then have k': "k < length cs'" using assms(1) by (metis length_map)
  have "projectType (cs ! k) = projectType (cs' ! k)"
    using assms(1) k k' by (metis nth_map)
  moreover have "tagBadges (cs ! k) = tagBadges (cs' ! k)"
    using assms(2) k k' by (metis nth_map)
  ultimately show "map (both_match g) cs ! k = map (both_match g) cs' ! k"
    using k k' by (simp add: both_match_def type_axis_matches_def tech_axis_matches_def)
qed

lemma set_currentFilter_commute:
  "set_currentFilter Tech v (set_currentFilter Type t f) =
   set_currentFilter Type t (set_currentFilter Tech v f)"
  by (simp add: set_currentFilter_def)

lemma two_clicks_commute:
  assumes ok: "listeners_ok q"
  shows "map visible (projectCards (fst (click Tech j (fst (click Type i q))))) =
         map visible (projectCards (fst (click Type i (fst (click Tech j q)))))"
proof -
  let ?vT = "\<exists>bs. container Type q = Some bs \<and> i < length bs"
  let ?vV = "\<exists>bs. container Tech q = Some bs \<and> j < length bs"
  show ?thesis
  proof (cases ?vT)
    case False
    then have 1: "fst (click Type i q) = q" by (rule click_invalid)
    have "container Type (fst (click Tech j q)) = container Type q"
    proof (cases ?vV)
      case True
      then obtain bs where "container Tech q = Some bs" "j < length bs" by blast
      from click_state(3)[OF ok this] show ?thesis by simp
    next
      case False
      then show ?thesis by (simp add: click_invalid)
    qed
    with False have "fst (click Type i (fst (click Tech j q))) = fst (click Tech j q)"
      by (intro click_invalid) simp
    with 1 show ?thesis by simp
  next
    case True
    then obtain bsT where T: "container Type q = Some bsT" "i < length bsT" by blast
    note cT = click_state[OF ok T]
    have okT: "listeners_ok (fst (click Type i q))" using ok by (rule listeners_ok_click)
    show ?thesis
    proof (cases ?vV)
      case False
      then have 1: "fst (click Tech j q) = q" by (rule click_invalid)
      have "container Tech (fst (click Type i q)) = container Tech q"
        using cT(3)[of Tech] by simp
      with False have "fst (click Tech j (fst (click Type i q))) = fst (click Type i q)"
        by (intro click_invalid) simp
      with 1 show ?thesis by simp
    next
      case True
      then obtain bsV where V: "container Tech q = Some bsV" "j < length bsV" by blast
      note cV = click_state[OF ok V]
      have okV: "listeners_ok (fst (click Tech j q))" using ok by (rule listeners_ok_click)
      have T': "container Type (fst (click Tech j q)) = Some bsT"
        using cV(3)[of Type] T(1) by simp
      have V': "container Tech (fst (click Type i q)) = Some bsV"
        using cT(3)[of Tech] V(1) by simp
      let ?f = "set_currentFilter Tech (dataValue (bsV ! j))
                  (set_currentFilter Type (dataValue (bsT ! i)) (currentFilter q))"
      have "map visible (projectCards (fst (click Tech j (fst (click Type i q))))) =
            map (both_match ?f) (projectCards (fst (click Type i q)))"
        using click_state(2)[OF okT V' V(2)] cT(1) by simp
      also have "\<dots> = map (both_match ?f) (projectCards q)"
        by (intro both_match_cong attrs_click)
      also have "\<dots> = map (both_match ?f) (projectCards (fst (click Tech j q)))"
        by (intro both_match_cong attrs_click[symmetric])
      also have "\<dots> = map visible (projectCards (fst (click Type i (fst (click Tech j q)))))"
        using click_state(2)[OF okV T' T(2)] cV(1) by (simp add: set_currentFilter_commute)
      finally show ?thesis .
    qed
  qed
qed

lemma select_state:
  "currentFilter (fst (select a x p)) = set_currentFilter a x (currentFilter p)"
  "map visible (projectCards (fst (select a x p))) =
     map (both_match (set_currentFilter a x (currentFilter p))) (projectCards p)"
  "map projectType (projectCards (fst (select a x p))) = map projectType (projectCards p)"
  "map tagBadges (projectCards (fst (select a x p))) = map tagBadges (projectCards p)"
  by (simp_all add: select_def currentFilter_applyFilters visible_applyFilters
      attrs_applyFilters)

lemma two_selections_commute:
  "map visible (projectCards (fst (select Tech v (fst (select Type t p))))) =
   map visible (projectCards (fst (select Type t (fst (select Tech v p)))))"
proof -
  let ?f = "set_currentFilter Tech v (set_currentFilter Type t (currentFilter p))"
  have "map visible (projectCards (fst (select Tech v (fst (select Type t p))))) =
        map (both_match ?f) (projectCards (fst (select Type t p)))"
    by (simp add: select_state)
  also have "\<dots> = map (both_match ?f) (projectCards p)"
    by (intro both_match_cong select_state(3,4))
  also have "\<dots> = map (both_match ?f) (projectCards (fst (select Tech v p)))"
    by (intro both_match_cong select_state(3,4)[symmetric])
  also have "\<dots> = map visible (projectCards (fst (select Type t (fst (select Tech v p)))))"
    by (simp add: select_state set_currentFilter_commute)
  finally show ?thesis .
qed

text \<open>
  Claim C7. On a page whose two filter containers exist and hold no control before the
  script runs, after any earlier clicks, clicking a control of the type axis and then a
  control of the tech axis leaves the same cards visible as clicking the two controls in
  the other order. For every page and every pair of values \<open>t\<close> and \<open>v\<close>, storing and
  re-evaluating type \<open>t\<close> and then tech \<open>v\<close> leaves the same cards visible as storing and
  re-evaluating tech \<open>v\<close> and then type \<open>t\<close>.
\<close>

theorem axis_order_independent:
  assumes "typeFiltersContainer markup = Some []" and "techFiltersContainer markup = Some []"
  shows "map visible (projectCards (session engine markup (evs @ [(Type, i), (Tech, j)]))) =
         map visible (projectCards (session engine markup (evs @ [(Tech, j), (Type, i)])))
       \<and> map visible (projectCards (fst (select Tech v (fst (select Type t p))))) =
         map visible (projectCards (fst (select Type t (fst (select Tech v p)))))"
  using two_clicks_commute[OF session_invariant(1)[OF assms, of engine evs], of j i]
    two_selections_commute[of v t p]
  by (simp add: session_def clicks_append)

theorem axis_order_independent_witness:
  "typeFiltersContainer (markup_of scenario_cards) = Some []
   \<and> techFiltersContainer (markup_of scenario_cards) = Some []
   \<and> map visible (projectCards
        (session idle_engine (markup_of scenario_cards) ([] @ [(Type, 1), (Tech, 1)]))) =
       map visible (projectCards
        (session idle_engine (markup_of scenario_cards) ([] @ [(Tech, 1), (Type, 1)])))
   \<and> map visible (projectCards (fst (select Tech (js ''y'')
        (fst (select Type (js ''A'') (markup_of scenario_cards)))))) =
       map visible (projectCards (fst (select Type (js ''A'')
        (fst (select Tech (js ''y'') (markup_of scenario_cards))))))"
proof -
  have t: "typeFiltersContainer (markup_of scenario_cards) = Some []"
    by (simp add: markup_of_def)
  have v: "techFiltersContainer (markup_of scenario_cards) = Some []"
    by (simp add: markup_of_def)
  show ?thesis
    using axis_order_independent[OF t v, of idle_engine "[]" 1 1 "js ''y''" "js ''A''"
            "markup_of scenario_cards"] t v
    by blast
qed

section \<open>The early return of setupFiltering\<close>

lemma run_no_buttons:
  assumes "filterButtons d = []" and "timeouts d = []"
  shows "run evs d = d"
proof -
  have "step ev d = d" for ev
    using assms by (cases ev) (simp_all add: click_filter_def run_timeout_def)
  then show ?thesis
    unfolding run_def by (induction evs) simp_all
qed

lemma set_add_fold_empty:
  "(fold (\<lambda>tag s. set_add s (f tag)) xs s0 = []) \<longleftrightarrow> (xs = [] \<and> s0 = [])"
proof (induction xs arbitrary: s0)
  case Nil
  then show ?case by simp
next
  case (Cons x xs)
  have "set_add s0 (f x) \<noteq> []" by (auto simp add: set_add_def)
  with Cons show ?case by simp
qed

text \<open>Without a header nothing happens; with a header and a tag the panel is built.\<close>

lemma setupFiltering_no_header: "\<not> header d \<Longrightarrow> setupFiltering parse d = d"
  by (simp add: setupFiltering_def)

lemma setupFiltering_with_tags:
  assumes "header d" and "techTagElements d \<noteq> []"
  shows "filterButtons (setupFiltering parse d) =
           parse (filterHTML (fold (\<lambda>tag s. set_add s (trim tag)) (techTagElements d) []))"
    and "filterStyles (setupFiltering parse d)"
proof -
  let ?s = "fold (\<lambda>tag s. set_add s (trim tag)) (techTagElements d) []"
  have ne: "?s \<noteq> []"
    using assms(2) unfolding set_add_fold_empty by blast
  show "filterButtons (setupFiltering parse d) = parse (filterHTML ?s)"
    using assms(1) ne by (simp add: setupFiltering_def Let_def)
  show "filterStyles (setupFiltering parse d)"
    using assms(1) ne by (simp add: setupFiltering_def Let_def)
qed

text \<open>The tags of the document are the tags outside the cards and those of the cards.\<close>

lemma tags_of_empty:
  "tags_of nodes = [] \<Longrightarrow> list_all (\<lambda>c. techTags c = []) (cards_of nodes)"
  by (induction nodes rule: tags_of.induct) simp_all

text \<open>
  Claim C10, as stated, fails. The claim has \<open>setupFiltering\<close> return early where the
  page has a header and no tag element in any card. The tag set is read from the whole
  document: on a page with a header, a tag element \<open>Python\<close> outside the cards and two
  cards without tags, no card has a tag, yet the panel is built with the buttons of
  \<open>all\<close> and \<open>Python\<close> and the style sheet, and after a click on \<open>Python\<close> and the
  two timers both cards are hidden.
\<close>

theorem stray_tag_builds_panel:
  "header stray_tag_page
   \<and> map techTags (techCards stray_tag_page) = [[], []]
   \<and> filterButtons (setupFiltering (parse_panel [js ''Python'']) stray_tag_page) =
       panel_buttons [js ''Python'']
   \<and> filterStyles (setupFiltering (parse_panel [js ''Python'']) stray_tag_page)
   \<and> map hiddenClass (techCards (run [Click 1, Timeout 0, Timeout 0]
         (setupFiltering (parse_panel [js ''Python'']) stray_tag_page))) = [True, True]"
  by code_simp

text \<open>
  Claim C10, amended. In the single-axis controller, on a page that has a projects
  header and no element of class \<open>tech-tag\<close> anywhere in the document,
  \<open>setupFiltering\<close> returns early: the page is as before, with no filter button, no
  listener and no style sheet of the panel; whatever events follow, the page stays as it
  was, so every card keeps the visibility the markup gave it.
\<close>

theorem setupFiltering_without_tags:
  assumes "tags_of nodes = []"
  shows "setupFiltering parse (initial_page True nodes) = initial_page True nodes
       \<and> filterButtons (setupFiltering parse (initial_page True nodes)) = []
       \<and> filterStyles (setupFiltering parse (initial_page True nodes)) = False
       \<and> run evs (setupFiltering parse (initial_page True nodes)) = initial_page True nodes
       \<and> map hiddenClass (techCards (run evs (setupFiltering parse (initial_page True nodes)))) =
           map hiddenClass (cards_of nodes)"
proof -
  have 1: "setupFiltering parse (initial_page True nodes) = initial_page True nodes"
    by (simp add: setupFiltering_def initial_page_def assms)
  have 2: "run evs (initial_page True nodes) = initial_page True nodes"
    by (rule run_no_buttons) (simp_all add: initial_page_def)
  show ?thesis
    unfolding 1 2 by (simp add: initial_page_def)
qed

theorem setupFiltering_without_tags_witness:
  "tags_of untagged_nodes = []
   \<and> setupFiltering (parse_panel []) (initial_page True untagged_nodes) =
       initial_page True untagged_nodes
   \<and> filterButtons (setupFiltering (parse_panel []) (initial_page True untagged_nodes)) = []
   \<and> filterStyles (setupFiltering (parse_panel []) (initial_page True untagged_nodes)) = False
   \<and> run [Click 0, Timeout 0, Click 1]
        (setupFiltering (parse_panel []) (initial_page True untagged_nodes)) =
       initial_page True untagged_nodes
   \<and> map hiddenClass (techCards (run [Click 0, Timeout 0, Click 1]
        (setupFiltering (parse_panel []) (initial_page True untagged_nodes)))) =
       map hiddenClass (cards_of untagged_nodes)"
proof -
  have h: "tags_of untagged_nodes = []"
    by (simp add: untagged_nodes_def untagged_card_def)
  show ?thesis
    using setupFiltering_without_tags[OF h, of "parse_panel []" "[Click 0, Timeout 0, Click 1]"] h
    by blast
qed

section \<open>The controls after loading\<close>


text \<open>
  On a page whose containers exist and are empty, each container holds after loading the
  control of \<open>all\<close>, active, and then one inactive control for each value of its axis.
\<close>

lemma loaded_controls:
  assumes "typeFiltersContainer markup = Some []" and "techFiltersContainer markup = Some []"
  shows "map_option (map dataValue) (typeFiltersContainer (fst (DOMContentLoaded engine markup))) =
           Some (js ''all'' # sort (collectTypes (projectCards markup)))"
    and "map_option (map dataValue) (techFiltersContainer (fst (DOMContentLoaded engine markup))) =
           Some (js ''all'' # techOrder engine (projectCards markup))"
    and "map_option (map active) (typeFiltersContainer (fst (DOMContentLoaded engine markup))) =
           Some (True # replicate (length (collectTypes (projectCards markup))) False)"
    and "map_option (map active) (techFiltersContainer (fst (DOMContentLoaded engine markup))) =
           Some (True # replicate (length (techOrder engine (projectCards markup))) False)"
    and "currentFilter (fst (DOMContentLoaded engine markup)) = \<lparr>type = js ''all'', tech = js ''all''\<rparr>"
  unfolding DOMContentLoaded_eq[OF assms]
  by (simp_all add: dataValue_emitted active_emitted)

text \<open>
  Claim C4. The claim has every value registered as a control be a string that is not
  empty, on the type axis and on the tech axis. \<open>initTypeFilters\<close> tests the value before
  it adds it (see \<open>type_values\<close>); \<open>initTechFilters\<close> adds the trimmed text of every tag
  badge untested. For a page with one card that has the badges \<open>x\<close> and a single space,
  the controls of the tech container after loading have the values \<open>all\<close>, \<open>x\<close> and the
  empty string.
\<close>

theorem blank_badge_yields_empty_control:
  "map_option (map dataValue)
     (techFiltersContainer (fst (DOMContentLoaded engine blank_badge_markup))) =
     Some [js ''all'', js ''x'', []]"
  unfolding loaded_blank_badge by (simp add: loaded_page_def dataValue_emitted)

text \<open>
  Claim C5. The claim has the values of the tech axis follow the control of \<open>all\<close> in the
  order of descending frequency. The counter \<open>techCount\<close> is a plain object, so for a tag
  \<open>constructor\<close> the count read is no number and every comparison with it is \<open>NaN\<close>,
  which counts as \<open>0\<close>. For one card tagged \<open>constructor\<close> followed by two cards
  tagged \<open>a\<close> all comparisons are \<open>0\<close>, hence consistent, and the sort of every engine
  leaves the tags as they were: the tech container holds \<open>all\<close>, \<open>constructor\<close>, \<open>a\<close>
  in this order, while \<open>constructor\<close> occurs once and \<open>a\<close> twice.
\<close>

theorem prototype_key_breaks_frequency_order:
  "map_option (map dataValue)
     (techFiltersContainer (fst (DOMContentLoaded engine constructor_markup))) =
     Some [js ''all'', js ''constructor'', js ''a'']
   \<and> occurrences (projectCards constructor_markup) (js ''constructor'') = 1
   \<and> occurrences (projectCards constructor_markup) (js ''a'') = 2"
proof -
  have "occurrences (projectCards constructor_markup) (js ''constructor'') = 1"
    and "occurrences (projectCards constructor_markup) (js ''a'') = 2"
    by code_simp+
  then show ?thesis
    unfolding loaded_constructor by (simp add: loaded_page_def dataValue_emitted)
qed

end
